theory Spec2Isabelle
  imports Main
begin

section \<open>Python values and strings\<close>

text \<open>
  Python strings are modelled as \<^typ>\<open>string\<close>, a list of 8-bit code points (Latin-1).
  The values a handler, a constructor argument or an exit code can be are collected in
  \<open>pyval\<close>; \<open>PyObject\<close> stands for an object of any other class, named by its class.
\<close>

datatype pyval =
    PyNone
  | PyBool bool
  | PyInt int
  | PyStr string
  | PyObject string

text \<open>\<^verbatim>\<open>type(v) is int\<close>: exact type, so a \<open>bool\<close> is not an \<open>int\<close>.\<close>

fun type_is_int :: "pyval \<Rightarrow> bool" where
  "type_is_int (PyInt _) = True"
| "type_is_int _ = False"

text \<open>The characters \<^verbatim>\<open>str.strip()\<close> removes, among the code points below 256.\<close>

definition isspace :: "char \<Rightarrow> bool" where
  "isspace c = (let n = (of_char c :: nat) in
     (9 \<le> n \<and> n \<le> 13) \<or> (28 \<le> n \<and> n \<le> 32) \<or> n = 133 \<or> n = 160)"

definition lstrip :: "string \<Rightarrow> string" where
  "lstrip s = dropWhile isspace s"

definition rstrip :: "string \<Rightarrow> string" where
  "rstrip s = rev (dropWhile isspace (rev s))"

definition strip :: "string \<Rightarrow> string" where
  "strip s = rstrip (lstrip s)"

text \<open>\<^verbatim>\<open>str.lower()\<close> on the code points below 256: A-Z and the Latin-1 capitals.\<close>

definition lower_char :: "char \<Rightarrow> char" where
  "lower_char c = (let n = (of_char c :: nat) in
     if (65 \<le> n \<and> n \<le> 90) \<or> (192 \<le> n \<and> n \<le> 222 \<and> n \<noteq> 215)
     then char_of (n + 32) else c)"

definition lower :: "string \<Rightarrow> string" where
  "lower s = map lower_char s"

definition startswith :: "string \<Rightarrow> string \<Rightarrow> bool" where
  "startswith s p = (take (length p) s = p)"

text \<open>\<^verbatim>\<open>s.split(c)\<close> for a one-character separator: always at least one piece.\<close>

fun split_str :: "char \<Rightarrow> string \<Rightarrow> string list" where
  "split_str c [] = [[]]"
| "split_str c (x # xs) =
     (if x = c then [] # split_str c xs
      else (let r = split_str c xs in (x # hd r) # tl r))"

text \<open>\<^verbatim>\<open>sep.join(parts)\<close>.\<close>

fun join_str :: "string \<Rightarrow> string list \<Rightarrow> string" where
  "join_str sep [] = []"
| "join_str sep [p] = p"
| "join_str sep (p # q # ps) = p @ sep @ join_str sep (q # ps)"

section \<open>gp\_errors: exit codes and exceptions\<close>

definition EXIT_CODE_SUCCESS :: int where "EXIT_CODE_SUCCESS = 0"
definition EXIT_CODE_GENERAL_ERROR :: int where "EXIT_CODE_GENERAL_ERROR = 1"
definition EXIT_CODE_COMMAND_LINE_ARGUMENT_ERROR :: int where
  "EXIT_CODE_COMMAND_LINE_ARGUMENT_ERROR = 2"
definition EXIT_CODE_FILE_NOT_FOUND :: int where "EXIT_CODE_FILE_NOT_FOUND = 3"
definition EXIT_CODE_IO_ERROR :: int where "EXIT_CODE_IO_ERROR = 4"
definition EXIT_CODE_CONFIGURATION_EROR :: int where "EXIT_CODE_CONFIGURATION_EROR = 5"

text \<open>
  The names bound at module level in gp\_errors, as the module spells them. A name that
  is not in this table raises \<open>NameError\<close> when it is evaluated.
\<close>

definition module_globals :: "(string \<times> int) list" where
  "module_globals =
    [(''EXIT_CODE_SUCCESS'', EXIT_CODE_SUCCESS),
     (''EXIT_CODE_GENERAL_ERROR'', EXIT_CODE_GENERAL_ERROR),
     (''EXIT_CODE_COMMAND_LINE_ARGUMENT_ERROR'', EXIT_CODE_COMMAND_LINE_ARGUMENT_ERROR),
     (''EXIT_CODE_FILE_NOT_FOUND'', EXIT_CODE_FILE_NOT_FOUND),
     (''EXIT_CODE_IO_ERROR'', EXIT_CODE_IO_ERROR),
     (''EXIT_CODE_CONFIGURATION_EROR'', EXIT_CODE_CONFIGURATION_EROR)]"

text \<open>
  Exception classes: the built-in ones the code raises, the classes of gp\_errors, and
  application-defined classes given by their name and direct base class.
\<close>

datatype exc_class =
    Exception
  | TypeError
  | ValueError
  | NameError
  | IndexError
  | RuntimeError
  | ExitCodeError
  | GeneralError
  | CommandLineArgumentError
  | FileNotFoundError
  | IoError
  | ConfigurationError
  | AppDefined string exc_class

fun base_class :: "exc_class \<Rightarrow> exc_class option" where
  "base_class Exception = None"
| "base_class ExitCodeError = Some Exception"
| "base_class GeneralError = Some ExitCodeError"
| "base_class CommandLineArgumentError = Some ExitCodeError"
| "base_class FileNotFoundError = Some ExitCodeError"
| "base_class IoError = Some ExitCodeError"
| "base_class ConfigurationError = Some ExitCodeError"
| "base_class (AppDefined _ b) = Some b"
| "base_class TypeError = Some Exception"
| "base_class ValueError = Some Exception"
| "base_class NameError = Some Exception"
| "base_class IndexError = Some Exception"
| "base_class RuntimeError = Some Exception"

fun issubclass :: "exc_class \<Rightarrow> exc_class \<Rightarrow> bool" where
  "issubclass (AppDefined n b) d = (AppDefined n b = d \<or> issubclass b d)"
| "issubclass c d = (c = d \<or> base_class c = Some d \<or> d = Exception)"

text \<open>
  An exception object: its class, and the two attributes \<open>ExitCodeError.__init__\<close>
  sets (read only from instances of \<open>ExitCodeError\<close>).
\<close>

record exception =
  exc_type :: exc_class
  exitcode :: pyval
  message :: string

definition isinstance :: "exception \<Rightarrow> exc_class \<Rightarrow> bool" where
  "isinstance e c = issubclass (exc_type e) c"

text \<open>An exception raised by the interpreter itself: only its class matters.\<close>

definition builtin_exception :: "exc_class \<Rightarrow> string \<Rightarrow> exception" where
  "builtin_exception c msg = \<lparr>exc_type = c, exitcode = PyNone, message = msg\<rparr>"

text \<open>
  \<^verbatim>\<open>ExitCodeError.__init__(self, exitcode, message, *args)\<close>. The built-in
  \<^verbatim>\<open>str.format\<close> is a parameter \<open>fmt\<close>: it returns the formatted text or the class of
  the exception it raises.
\<close>

definition ExitCodeError_init ::
  "(string \<Rightarrow> pyval list \<Rightarrow> exc_class + string) \<Rightarrow> exc_class \<Rightarrow> pyval \<Rightarrow> string \<Rightarrow> pyval list
     \<Rightarrow> exc_class + exception" where
  "ExitCodeError_init fmt self_class code msg args =
     (case fmt msg args of
        Inl e \<Rightarrow> Inl e
      | Inr text \<Rightarrow> Inr \<lparr>exc_type = self_class, exitcode = code, message = text\<rparr>)"

text \<open>
  \<^verbatim>\<open>super(cls, self)\<close> raises \<open>TypeError\<close> unless \<open>self\<close> is an instance of \<open>cls\<close>;
  otherwise the call goes to the class after \<open>cls\<close>, here always \<open>ExitCodeError\<close>.
\<close>

definition super_check :: "exc_class \<Rightarrow> exc_class \<Rightarrow> exc_class + unit" where
  "super_check cls self_class = (if issubclass self_class cls then Inr () else Inl TypeError)"

definition lookup_global :: "string \<Rightarrow> exc_class + int" where
  "lookup_global n = (case map_of module_globals n of None \<Rightarrow> Inl NameError | Some v \<Rightarrow> Inr v)"

text \<open>
  The constructor of an error class of gp\_errors whose body is
  \<^verbatim>\<open>super(cls, self).__init__(CODE_NAME, message, *args)\<close>: first the \<open>super\<close> object,
  then the arguments (the global name is looked up), then the call.
\<close>

definition subclass_init ::
  "(string \<Rightarrow> pyval list \<Rightarrow> exc_class + string) \<Rightarrow> exc_class \<Rightarrow> exc_class \<Rightarrow> string \<Rightarrow> string
     \<Rightarrow> pyval list \<Rightarrow> exc_class + exception" where
  "subclass_init fmt self_class cls code_name msg args =
     (case super_check cls self_class of
        Inl e \<Rightarrow> Inl e
      | Inr _ \<Rightarrow>
          (case lookup_global code_name of
             Inl e \<Rightarrow> Inl e
           | Inr code \<Rightarrow> ExitCodeError_init fmt self_class (PyInt code) msg args))"

definition GeneralError_init where
  "GeneralError_init fmt msg args =
     subclass_init fmt GeneralError CommandLineArgumentError ''EXIT_CODE_GENERAL_ERROR'' msg args"

definition CommandLineArgumentError_init where
  "CommandLineArgumentError_init fmt msg args =
     subclass_init fmt CommandLineArgumentError CommandLineArgumentError
       ''EXIT_CODE_COMMAND_LINE_ARGUMENT_ERROR'' msg args"

definition FileNotFoundError_init where
  "FileNotFoundError_init fmt msg args =
     subclass_init fmt FileNotFoundError FileNotFoundError ''EXIT_CODE_FILE_NOT_FOUND'' msg args"

definition IoError_init where
  "IoError_init fmt msg args =
     subclass_init fmt IoError IoError ''EXIT_CODE_IO_ERROR'' msg args"

definition ConfigurationError_init where
  "ConfigurationError_init fmt msg args =
     subclass_init fmt ConfigurationError ConfigurationError
       ''EXIT_CODE_CONFIGURATION_ERROR'' msg args"

section \<open>gp\_cmdproc: argument definitions\<close>

datatype PositionalArgument = PositionalArgument (pos_name: string)

text \<open>
  A \<open>NamedArgument\<close> object. Python compares these objects by identity
  (\<^verbatim>\<open>arg_def in not_specified_named_arguments\<close>, \<^verbatim>\<open>list.remove\<close>), so the record
  carries the object's identity next to its four attributes.
\<close>

record NamedArgument =
  ident :: nat
  name :: string
  from_stdin :: bool
  min_occurrence :: int
  max_occurrence :: int

text \<open>
  \<^verbatim>\<open>NamedArgument.__init__(self, name, from_stdin, min_occurrence, max_occurrence)\<close>;
  \<open>oid\<close> is the identity of the object under construction.
\<close>

fun NamedArgument_init ::
  "nat \<Rightarrow> pyval \<Rightarrow> pyval \<Rightarrow> pyval \<Rightarrow> pyval \<Rightarrow> exc_class + NamedArgument" where
  "NamedArgument_init oid (PyStr n) (PyBool fs) (PyInt mn) (PyInt mx) =
     (if mn > mx then Inl ValueError
      else if fs \<and> mx > 1 then Inl ValueError
      else Inr \<lparr>ident = oid, name = n, from_stdin = fs, min_occurrence = mn,
                max_occurrence = mx\<rparr>)"
| "NamedArgument_init oid _ _ _ _ = Inl TypeError"

section \<open>The interpreter state the dispatcher touches\<close>

text \<open>
  The list objects that hold named-argument definitions live in a store, addressed by
  reference: \<open>process\<close> copies such a list and removes elements from the copy, so whether
  two names denote the same list object matters. \<open>next_ref\<close> is the first unused
  reference. Standard input is its terminal flag and the text not yet read. \<open>events\<close>
  records, in order, what the dispatcher does to its collaborators: the error messages
  it hands to the logger and to \<open>print_error\<close>, and the handlers it calls.
\<close>

type_synonym ref = nat

type_synonym named_dict = "(string \<times> string list) list"

text \<open>The five error messages of \<open>process\<close>, by template and arguments.\<close>

datatype cli_error =
    InvalidFormat
  | NotAllowed string
  | RequiredAtLeast string int
  | AllowedAtMaximum string int
  | MustBeSpecified NamedArgument

datatype event =
    ErrorReported cli_error
  | HandlerInvoked nat "string list" named_dict
  | ExceptionHandlerInvoked nat exception
  | ErrorPrinted string

record world =
  heap :: "ref \<Rightarrow> NamedArgument list"
  next_ref :: ref
  stdin_isatty :: bool
  stdin_buffer :: string
  events :: "event list"

definition emit :: "event \<Rightarrow> world \<Rightarrow> world" where
  "emit ev w = w\<lparr>events := events w @ [ev]\<rparr>"

text \<open>
  \<^verbatim>\<open>Log.write_error(error); if not Log.uses_stdio: print_error(error)\<close>. The logger and
  \<open>print_error\<close> format the text they are given a second time; the model records the
  message and does not follow that second formatting, which raises when a key or a
  definition's name contains a brace. The same holds for \<^verbatim>\<open>print_error(e.message)\<close>.
\<close>

definition report :: "cli_error \<Rightarrow> world \<Rightarrow> world" where
  "report err w = emit (ErrorReported err) w"

text \<open>\<^verbatim>\<open>xs[:]\<close>: a new list object with the same elements.\<close>

definition list_copy :: "ref \<Rightarrow> world \<Rightarrow> ref \<times> world" where
  "list_copy r w =
     (next_ref w, w\<lparr>heap := (heap w)(next_ref w := heap w r), next_ref := Suc (next_ref w)\<rparr>)"

text \<open>A new list object with the given elements.\<close>

definition list_new :: "NamedArgument list \<Rightarrow> world \<Rightarrow> ref \<times> world" where
  "list_new xs w =
     (next_ref w, w\<lparr>heap := (heap w)(next_ref w := xs), next_ref := Suc (next_ref w)\<rparr>)"

text \<open>\<^verbatim>\<open>if x in xs: xs.remove(x)\<close> on the list object at \<open>r\<close>.\<close>

definition remove_if_in :: "ref \<Rightarrow> NamedArgument \<Rightarrow> world \<Rightarrow> world" where
  "remove_if_in r x w =
     (if x \<in> set (heap w r) then w\<lparr>heap := (heap w)(r := remove1 x (heap w r))\<rparr> else w)"

text \<open>\<^verbatim>\<open>sys.stdin.readline()\<close>: the text up to and including the next newline.\<close>

definition readline :: "string \<Rightarrow> string \<times> string" where
  "readline buf =
     (let l = takeWhile (\<lambda>c. c \<noteq> CHR 0x0A) buf; rest = dropWhile (\<lambda>c. c \<noteq> CHR 0x0A) buf
      in case rest of [] \<Rightarrow> (l, []) | c # rest' \<Rightarrow> (l @ [c], rest'))"

text \<open>gp\_helpers: \<open>readline_if_no_tty\<close>.\<close>

definition readline_if_no_tty :: "world \<Rightarrow> string option \<times> world" where
  "readline_if_no_tty w =
     (if \<not> stdin_isatty w then
        (let (line, rest) = readline (stdin_buffer w); w' = w\<lparr>stdin_buffer := rest\<rparr>
         in if length line > 0 then (Some (rstrip line), w') else (None, w'))
      else (None, w))"

section \<open>gp\_cmdproc: CommandProcessor\<close>

datatype handler_result = Return pyval | Raise exception

text \<open>
  A command handler is called with the positional tokens and the effective named
  arguments; an exception handler with the exception. Both return a value or raise.
\<close>

type_synonym handler = "string list \<Rightarrow> named_dict \<Rightarrow> handler_result"

type_synonym registration = "handler \<times> PositionalArgument list \<times> ref"

record CommandProcessor =
  cmdline_handlers :: "registration list"
  exception_handlers :: "((exception \<Rightarrow> handler_result) \<times> exc_class) list"

definition CommandProcessor_init :: CommandProcessor where
  "CommandProcessor_init = \<lparr>cmdline_handlers = [], exception_handlers = []\<rparr>"

text \<open>What \<open>add_handler\<close> can be given: the two definition classes, or anything else.\<close>

datatype argdef =
    Pos PositionalArgument
  | Named NamedArgument
  | Other pyval

fun partition_args ::
  "argdef list \<Rightarrow> PositionalArgument list \<Rightarrow> NamedArgument list
     \<Rightarrow> exc_class + (PositionalArgument list \<times> NamedArgument list)" where
  "partition_args [] pos_args named_args = Inr (pos_args, named_args)"
| "partition_args (Pos a # args) pos_args named_args =
     partition_args args (pos_args @ [a]) named_args"
| "partition_args (Named a # args) pos_args named_args =
     partition_args args pos_args (named_args @ [a])"
| "partition_args (Other v # args) pos_args named_args = Inl TypeError"

definition add_handler ::
  "handler \<Rightarrow> argdef list \<Rightarrow> CommandProcessor \<Rightarrow> world \<Rightarrow> exc_class + (CommandProcessor \<times> world)"
  where
  "add_handler h args p w =
     (case partition_args args [] [] of
        Inl e \<Rightarrow> Inl e
      | Inr (pos_args, named_args) \<Rightarrow>
          (let (r, w') = list_new named_args w
           in Inr (p\<lparr>cmdline_handlers := cmdline_handlers p @ [(h, pos_args, r)]\<rparr>, w')))"

definition add_exception_handler ::
  "(exception \<Rightarrow> handler_result) \<Rightarrow> exc_class \<Rightarrow> CommandProcessor \<Rightarrow> CommandProcessor" where
  "add_exception_handler h exception_type p =
     p\<lparr>exception_handlers := exception_handlers p @ [(h, exception_type)]\<rparr>"

subsection \<open>process: splitting the arguments\<close>

text \<open>
  \<^verbatim>\<open>if not key in d: d[key] = []\<close> followed by \<^verbatim>\<open>d[key].append(v)\<close>, on a dictionary
  kept in insertion order.
\<close>

fun dict_append :: "named_dict \<Rightarrow> string \<Rightarrow> string \<Rightarrow> named_dict" where
  "dict_append [] k v = [(k, [v])]"
| "dict_append ((k', vs) # d) k v =
     (if k' = k then (k', vs @ [v]) # d else (k', vs) # dict_append d k v)"

text \<open>\<^verbatim>\<open>d[key] = v\<close>.\<close>

fun dict_set :: "named_dict \<Rightarrow> string \<Rightarrow> string list \<Rightarrow> named_dict" where
  "dict_set [] k v = [(k, v)]"
| "dict_set ((k', v') # d) k v =
     (if k' = k then (k', v) # d else (k', v') # dict_set d k v)"

text \<open>
  The first loop of \<open>process\<close>, with its two accumulators. \<open>Inl\<close> is the early return
  on a named token with an empty key.
\<close>

fun split_arguments ::
  "string list \<Rightarrow> string list \<Rightarrow> named_dict \<Rightarrow> cli_error + (string list \<times> named_dict)" where
  "split_arguments [] specified_positional specified_named =
     Inr (specified_positional, specified_named)"
| "split_arguments (arg # args) specified_positional specified_named =
     (let arg = strip arg in
      if startswith arg ''--'' then
        (let arg = drop 2 arg;
             arg_tokens = split_str CHR ''='' arg;
             key = strip (lower (hd arg_tokens))
         in if length key > 0
            then split_arguments args specified_positional
                   (dict_append specified_named key (join_str ''='' (tl arg_tokens)))
            else Inl InvalidFormat)
      else split_arguments args (specified_positional @ [arg]) specified_named)"

subsection \<open>process: finding the best fit\<close>

text \<open>
  The inner loop: \<^verbatim>\<open>args[i]\<close> is the raw token of the invocation at index \<open>i\<close>, not the
  \<open>i\<close>-th positional token. Running past the end of \<open>args\<close> is an \<open>IndexError\<close>.
\<close>

fun count_matching :: "PositionalArgument list \<Rightarrow> string list \<Rightarrow> exc_class + int" where
  "count_matching [] args = Inr 0"
| "count_matching (e # es) [] = Inl IndexError"
| "count_matching (e # es) (a # args) =
     (if lower a \<noteq> lower (pos_name e) then Inr 0
      else (case count_matching es args of Inl x \<Rightarrow> Inl x | Inr n \<Rightarrow> Inr (n + 1)))"

text \<open>
  The outer loop over \<^verbatim>\<open>enumerate(self.__cmdline_handlers)\<close>; the state is
  \<open>(best_fit_index, best_fit_count)\<close>, started at \<open>(-1, -1)\<close>.
\<close>

fun find_best_fit ::
  "registration list \<Rightarrow> int \<Rightarrow> string list \<Rightarrow> string list \<Rightarrow> int \<times> int
     \<Rightarrow> exc_class + (int \<times> int)" where
  "find_best_fit [] index args specified_positional best = Inr best"
| "find_best_fit ((method, expected_positional, expected_named) # regs) index args
       specified_positional (best_fit_index, best_fit_count) =
     (if length expected_positional > length specified_positional
      then find_best_fit regs (index + 1) args specified_positional
             (best_fit_index, best_fit_count)
      else (case count_matching expected_positional args of
              Inl x \<Rightarrow> Inl x
            | Inr match_count \<Rightarrow>
                if match_count = int (length expected_positional) \<and> match_count > best_fit_count
                then find_best_fit regs (index + 1) args specified_positional (index, match_count)
                else find_best_fit regs (index + 1) args specified_positional
                       (best_fit_index, best_fit_count)))"

subsection \<open>process: the selected registration\<close>

text \<open>
  The loop over \<^verbatim>\<open>specified_named_arguments.items()\<close>. \<open>expected\<close> is the
  registration's list of named definitions, \<open>not_specified\<close> the list the bookkeeping
  removes from. The first component is the error of an early return.
\<close>

fun check_specified ::
  "named_dict \<Rightarrow> ref \<Rightarrow> ref \<Rightarrow> world \<Rightarrow> cli_error option \<times> world" where
  "check_specified [] expected not_specified w = (None, w)"
| "check_specified ((arg_name, arg_values) # rest) expected not_specified w =
     (case find (\<lambda>x. lower arg_name = name x) (heap w expected) of
        None \<Rightarrow> (Some (NotAllowed arg_name), w)
      | Some arg_def \<Rightarrow>
          (let w1 = remove_if_in not_specified arg_def w in
           if int (length arg_values) < min_occurrence arg_def
           then (Some (RequiredAtLeast arg_name (min_occurrence arg_def)), w1)
           else if int (length arg_values) > max_occurrence arg_def
           then (Some (AllowedAtMaximum arg_name (max_occurrence arg_def)), w1)
           else check_specified rest expected not_specified w1))"

text \<open>The stdin part of one round of the second loop.\<close>

definition read_from_stdin :: "NamedArgument \<Rightarrow> ref \<Rightarrow> world \<Rightarrow> string option \<times> world" where
  "read_from_stdin arg_def not_specified w =
     (if from_stdin arg_def \<and> max_occurrence arg_def = 1 then
        (case readline_if_no_tty w of
           (Some v, w') \<Rightarrow> (Some v, remove_if_in not_specified arg_def w')
         | (None, w') \<Rightarrow>
             if stdin_isatty w' then (None, remove_if_in not_specified arg_def w')
             else (None, w'))
      else (None, w))"

text \<open>The values of one round: the command line first, the line from stdin otherwise.\<close>

definition effective_values :: "named_dict \<Rightarrow> NamedArgument \<Rightarrow> string option \<Rightarrow> string list" where
  "effective_values specified_named arg_def arg_value_from_stdin =
     (let effective_argument_values =
            (case map_of specified_named (name arg_def) of None \<Rightarrow> [] | Some arg_values \<Rightarrow> arg_values)
      in case arg_value_from_stdin of
           None \<Rightarrow> effective_argument_values
         | Some v \<Rightarrow>
             if length effective_argument_values = 0 then effective_argument_values @ [v]
             else effective_argument_values)"

text \<open>
  The loop that crafts \<open>effective_named_arguments\<close>, over the definitions of the
  registration's list (a list object this loop does not change).
\<close>

fun craft_effective ::
  "NamedArgument list \<Rightarrow> named_dict \<Rightarrow> ref \<Rightarrow> named_dict \<Rightarrow> world \<Rightarrow> named_dict \<times> world" where
  "craft_effective [] specified_named not_specified effective w = (effective, w)"
| "craft_effective (arg_def # rest) specified_named not_specified effective w =
     (let (arg_value_from_stdin, w1) = read_from_stdin arg_def not_specified w
      in craft_effective rest specified_named not_specified
           (dict_set effective (name arg_def)
              (effective_values specified_named arg_def arg_value_from_stdin)) w1)"

datatype outcome = Returned pyval | Raised exception

fun outcome_of :: "handler_result \<Rightarrow> outcome" where
  "outcome_of (Return v) = Returned v"
| "outcome_of (Raise e) = Raised e"

text \<open>
  The loop of the \<^verbatim>\<open>except\<close> clause: the first exception handler registered for exactly
  the class of \<open>e\<close> is called, and what it returns or raises leaves \<open>process\<close>.
\<close>

fun route_exception ::
  "((exception \<Rightarrow> handler_result) \<times> exc_class) list \<Rightarrow> nat \<Rightarrow> exception \<Rightarrow> world
     \<Rightarrow> (outcome \<times> world) option" where
  "route_exception [] i e w = None"
| "route_exception ((h, t) # rs) i e w =
     (if t = exc_type e then Some (outcome_of (h e), emit (ExceptionHandlerInvoked i e) w)
      else route_exception rs (Suc i) e w)"

text \<open>The \<^verbatim>\<open>except Exception as e\<close> clause.\<close>

definition handle_exception :: "CommandProcessor \<Rightarrow> exception \<Rightarrow> world \<Rightarrow> outcome \<times> world" where
  "handle_exception p e w =
     (case route_exception (exception_handlers p) 0 e w of
        Some r \<Rightarrow> r
      | None \<Rightarrow>
          if isinstance e ExitCodeError then (Returned (exitcode e), emit (ErrorPrinted (message e)) w)
          else (Raised e, w))"

text \<open>Calling the handler and checking what it returns, inside the \<^verbatim>\<open>try\<close>.\<close>

definition invoke_handler ::
  "CommandProcessor \<Rightarrow> nat \<Rightarrow> handler \<Rightarrow> string list \<Rightarrow> named_dict \<Rightarrow> world \<Rightarrow> outcome \<times> world"
  where
  "invoke_handler p index h specified_positional effective w =
     (let w1 = emit (HandlerInvoked index specified_positional effective) w in
      case h specified_positional effective of
        Raise e \<Rightarrow> handle_exception p e w1
      | Return code \<Rightarrow>
          if \<not> type_is_int code
          then handle_exception p
                 (builtin_exception RuntimeError
                    ''The command line handler did not return an exit code.'') w1
          else (Returned code, w1))"

text \<open>The body of the \<^verbatim>\<open>try\<close> for the registration at \<open>best_fit_index\<close>.\<close>

definition handle_command ::
  "CommandProcessor \<Rightarrow> nat \<Rightarrow> string list \<Rightarrow> named_dict \<Rightarrow> world \<Rightarrow> outcome \<times> world" where
  "handle_command p best_fit_index specified_positional specified_named w =
     (case cmdline_handlers p ! best_fit_index of
        (h, expected_positional, expected_named) \<Rightarrow>
          (let (not_specified, w0) = list_copy expected_named w in
           case check_specified specified_named expected_named not_specified w0 of
             (Some err, w1) \<Rightarrow>
               (Returned (PyInt EXIT_CODE_COMMAND_LINE_ARGUMENT_ERROR), report err w1)
           | (None, w1) \<Rightarrow>
               (let (effective, w2) =
                      craft_effective (heap w1 expected_named) specified_named not_specified [] w1
                in case find (\<lambda>arg_def. min_occurrence arg_def > 0) (heap w2 not_specified) of
                     Some arg_def \<Rightarrow>
                       (Returned (PyInt EXIT_CODE_COMMAND_LINE_ARGUMENT_ERROR),
                        report (MustBeSpecified arg_def) w2)
                   | None \<Rightarrow>
                       invoke_handler p best_fit_index h specified_positional effective w2)))"

text \<open>
  \<open>process\<close>. The result is what the call returns or raises, the processor and the
  interpreter state afterwards. An exception of the matching loop is outside the
  \<^verbatim>\<open>try\<close> and leaves \<open>process\<close> as it is.
\<close>

definition process ::
  "CommandProcessor \<Rightarrow> string list \<Rightarrow> world \<Rightarrow> outcome \<times> CommandProcessor \<times> world" where
  "process p args w =
     (case split_arguments args [] [] of
        Inl err \<Rightarrow> (Returned (PyInt EXIT_CODE_COMMAND_LINE_ARGUMENT_ERROR), p, report err w)
      | Inr (specified_positional, specified_named) \<Rightarrow>
          (case find_best_fit (cmdline_handlers p) 0 args specified_positional (- 1, - 1) of
             Inl x \<Rightarrow> (Raised (builtin_exception x ''list index out of range''), p, w)
           | Inr (best_fit_index, best_fit_count) \<Rightarrow>
               if best_fit_index \<noteq> - 1
               then (case handle_command p (nat best_fit_index) specified_positional
                            specified_named w of
                       (out, w') \<Rightarrow> (out, p, w'))
               else (Returned PyNone, p, w)))"

section \<open>Example processors\<close>

text \<open>A handler that succeeds, one that returns no exit code, and a formatter.\<close>

definition ok_handler :: handler where
  "ok_handler pos named = Return (PyInt 0)"

definition none_handler :: handler where
  "none_handler pos named = Return PyNone"

definition plain_format :: "string \<Rightarrow> pyval list \<Rightarrow> exc_class + string" where
  "plain_format msg args = Inr msg"

definition empty_world :: world where
  "empty_world =
     \<lparr>heap = (\<lambda>r. []), next_ref = 0, stdin_isatty = False, stdin_buffer = [], events = []\<rparr>"

text \<open>
  \<^verbatim>\<open>add_handler(ok_handler, PositionalArgument("run"), NamedArgument("name", False, 0, 3))\<close>
  on a new processor.
\<close>

definition name_arg :: NamedArgument where
  "name_arg =
     \<lparr>ident = 0, name = ''name'', from_stdin = False, min_occurrence = 0, max_occurrence = 3\<rparr>"

definition run_processor :: CommandProcessor where
  "run_processor =
     \<lparr>cmdline_handlers = [(ok_handler, [PositionalArgument ''run''], 0)],
      exception_handlers = []\<rparr>"

definition run_world :: world where
  "run_world = empty_world\<lparr>heap := (heap empty_world)(0 := [name_arg]), next_ref := 1\<rparr>"

text \<open>Two named definitions whose names differ only in case.\<close>

definition upper_name_arg :: NamedArgument where
  "upper_name_arg =
     \<lparr>ident = 1, name = ''NAME'', from_stdin = False, min_occurrence = 0, max_occurrence = 1\<rparr>"

text \<open>
  Three registrations: \<open>run\<close>, and \<open>run fast\<close> twice (the second shadowed by the first).
\<close>

definition one_handler :: handler where
  "one_handler pos named = Return (PyInt 1)"

definition two_handler :: handler where
  "two_handler pos named = Return (PyInt 2)"

definition fast_processor :: CommandProcessor where
  "fast_processor =
     \<lparr>cmdline_handlers =
        [(ok_handler, [PositionalArgument ''run''], 0),
         (one_handler, [PositionalArgument ''run'', PositionalArgument ''fast''], 1),
         (two_handler, [PositionalArgument ''run'', PositionalArgument ''fast''], 2)],
      exception_handlers = []\<rparr>"

definition fast_world :: world where
  "fast_world = empty_world\<lparr>next_ref := 3\<rparr>"

text \<open>
  A handler that returns \<open>None\<close>, registered without arguments, once with an exception
  handler for \<open>RuntimeError\<close> and once without.
\<close>

definition seven_route :: "exception \<Rightarrow> handler_result" where
  "seven_route e = Return (PyInt 7)"

definition routed_processor :: CommandProcessor where
  "routed_processor =
     \<lparr>cmdline_handlers = [(none_handler, [], 0)],
      exception_handlers = [(seven_route, RuntimeError)]\<rparr>"

definition unrouted_processor :: CommandProcessor where
  "unrouted_processor =
     \<lparr>cmdline_handlers = [(none_handler, [], 0)], exception_handlers = []\<rparr>"

definition routed_world :: world where
  "routed_world = empty_world\<lparr>next_ref := 1\<rparr>"

text \<open>
  \<^verbatim>\<open>add_handler(ok_handler, PositionalArgument("login"),
  NamedArgument("password", True, 1, 1))\<close>, with standard input a terminal, and with
  the line \<open>abc\<close> piped in.
\<close>

definition password_arg :: NamedArgument where
  "password_arg =
     \<lparr>ident = 0, name = ''password'', from_stdin = True, min_occurrence = 1,
      max_occurrence = 1\<rparr>"

definition login_processor :: CommandProcessor where
  "login_processor =
     \<lparr>cmdline_handlers = [(ok_handler, [PositionalArgument ''login''], 0)],
      exception_handlers = []\<rparr>"

definition login_tty_world :: world where
  "login_tty_world =
     empty_world\<lparr>heap := (heap empty_world)(0 := [password_arg]), next_ref := 1,
       stdin_isatty := True\<rparr>"

definition login_pipe_world :: world where
  "login_pipe_world =
     empty_world\<lparr>heap := (heap empty_world)(0 := [password_arg]), next_ref := 1,
       stdin_buffer := ''abc'' @ [CHR 0x0A]\<rparr>"

text \<open>The same registration with a second definition named \<open>password\<close> after the first.\<close>

definition password_flag :: NamedArgument where
  "password_flag =
     \<lparr>ident = 1, name = ''password'', from_stdin = False, min_occurrence = 0,
      max_occurrence = 1\<rparr>"

definition twice_pipe_world :: world where
  "twice_pipe_world =
     empty_world\<lparr>heap := (heap empty_world)(0 := [password_arg, password_flag]),
       next_ref := 1, stdin_buffer := ''abc'' @ [CHR 0x0A]\<rparr>"

text \<open>
  \<^verbatim>\<open>add_handler(ok_handler, NamedArgument("Name"))\<close>: a definition whose name is not in
  lower case.
\<close>

definition caps_arg :: NamedArgument where
  "caps_arg =
     \<lparr>ident = 0, name = ''Name'', from_stdin = False, min_occurrence = 0, max_occurrence = 1\<rparr>"

definition caps_processor :: CommandProcessor where
  "caps_processor = \<lparr>cmdline_handlers = [(ok_handler, [], 0)], exception_handlers = []\<rparr>"

definition caps_world :: world where
  "caps_world = empty_world\<lparr>heap := (heap empty_world)(0 := [caps_arg]), next_ref := 1\<rparr>"

section \<open>Vocabulary of the properties\<close>

text \<open>
  A token whose key is empty after the marker is stripped: the condition under which the
  first loop of \<open>process\<close> returns early.
\<close>

definition malformed :: "string \<Rightarrow> bool" where
  "malformed t =
     (startswith (strip t) ''--'' \<and>
      strip (lower (hd (split_str CHR ''='' (drop 2 (strip t))))) = [])"

text \<open>The positional and the named definitions among the arguments of \<open>add_handler\<close>.\<close>

fun positional_of :: "argdef list \<Rightarrow> PositionalArgument list" where
  "positional_of [] = []"
| "positional_of (Pos a # ds) = a # positional_of ds"
| "positional_of (d # ds) = positional_of ds"

fun named_of :: "argdef list \<Rightarrow> NamedArgument list" where
  "named_of [] = []"
| "named_of (Named a # ds) = a # named_of ds"
| "named_of (d # ds) = named_of ds"

fun is_other :: "argdef \<Rightarrow> bool" where
  "is_other (Other v) = True"
| "is_other d = False"

text \<open>
  The number of positional definitions of a registration, and what it is for a
  registration to match an invocation fully: it asks for no more positional tokens than
  were supplied, and each of its names equals, ignoring case, the raw token of the
  invocation at the same index.
\<close>

definition npos :: "registration \<Rightarrow> nat" where
  "npos reg = length (fst (snd reg))"

definition fully_matching :: "registration \<Rightarrow> string list \<Rightarrow> string list \<Rightarrow> bool" where
  "fully_matching reg args specified_positional =
     (npos reg \<le> length specified_positional \<and>
      list_all2 (\<lambda>e a. lower a = lower (pos_name e)) (fst (snd reg)) (take (npos reg) args))"

text \<open>
  The best fit: a fully matching registration such that every other fully matching one
  has fewer positional definitions, or as many and a later place in the registry.
\<close>

definition best_fit :: "registration list \<Rightarrow> string list \<Rightarrow> string list \<Rightarrow> nat \<Rightarrow> bool" where
  "best_fit regs args specified_positional i =
     (i < length regs \<and> fully_matching (regs ! i) args specified_positional \<and>
      (\<forall>j < length regs. fully_matching (regs ! j) args specified_positional \<longrightarrow>
         npos (regs ! j) < npos (regs ! i) \<or> (npos (regs ! j) = npos (regs ! i) \<and> i \<le> j)))"

text \<open>The invariant of the matching loop on the registrations seen so far.\<close>

definition best_inv ::
  "registration list \<Rightarrow> string list \<Rightarrow> string list \<Rightarrow> int \<times> int \<Rightarrow> bool" where
  "best_inv regs args pos b =
     (case b of (bi, bc) \<Rightarrow>
        (bi = - 1 \<and> bc = - 1 \<and> (\<forall>j < length regs. \<not> fully_matching (regs ! j) args pos)) \<or>
        (0 \<le> bi \<and> best_fit regs args pos (nat bi) \<and> bc = int (npos (regs ! nat bi))))"

text \<open>What a call added to the record of events.\<close>

definition new_events :: "world \<Rightarrow> world \<Rightarrow> event list" where
  "new_events w w' = drop (length (events w)) (events w')"

fun is_invocation :: "event \<Rightarrow> bool" where
  "is_invocation (HandlerInvoked i pos eff) = True"
| "is_invocation ev = False"

text \<open>The exception \<open>process\<close> raises when a handler returns no exit code.\<close>

definition contract_violation :: exception where
  "contract_violation =
     builtin_exception RuntimeError ''The command line handler did not return an exit code.''"

text \<open>
  The positional tokens of an invocation: its tokens, stripped, that do not start with
  the marker, in their order.
\<close>

definition positional_tokens :: "string list \<Rightarrow> string list" where
  "positional_tokens args = filter (\<lambda>a. \<not> startswith a ''--'') (map strip args)"

text \<open>
  What is left of standard input, when it is no terminal, after the rounds of the second
  loop for the given definitions: each definition that reads from stdin takes one line.
\<close>

fun stdin_after :: "NamedArgument list \<Rightarrow> string \<Rightarrow> string" where
  "stdin_after [] buf = buf"
| "stdin_after (arg_def # rest) buf =
     stdin_after rest
       (if from_stdin arg_def \<and> max_occurrence arg_def = 1 then snd (readline buf) else buf)"

section \<open>Properties\<close>

text \<open>The equations that evaluate the string functions on a concrete string.\<close>

lemmas str_eval =
  lower_def lower_char_def char_of_def bit_Suc_0_iff strip_def lstrip_def rstrip_def
  isspace_def startswith_def Let_def

text \<open>The equations that evaluate \<open>process\<close> on a concrete processor and state.\<close>

lemmas world_eval =
  empty_world_def list_copy_def remove_if_in_def report_def emit_def readline_if_no_tty_def
  readline_def read_from_stdin_def effective_values_def handle_command_def invoke_handler_def
  handle_exception_def process_def EXIT_CODE_COMMAND_LINE_ARGUMENT_ERROR_def

subsection \<open>The error classes\<close>

text \<open>
  C3. The claim is that \<open>GeneralError(message)\<close> carries exit code 1 and
  \<open>ConfigurationError(message)\<close> exit code 5. The constructors as written never produce an
  object: \<open>GeneralError.__init__\<close> asks for \<^verbatim>\<open>super(CommandLineArgumentError, self)\<close>,
  which is a \<open>TypeError\<close> for an object that is no \<open>CommandLineArgumentError\<close>, and
  \<open>ConfigurationError.__init__\<close> reads \<open>EXIT_CODE_CONFIGURATION_ERROR\<close>, a name the
  module spells \<open>EXIT_CODE_CONFIGURATION_EROR\<close>, which is a \<open>NameError\<close>. This holds for
  every message, every further argument and every behaviour of \<open>str.format\<close>.
\<close>

theorem error_constructors_raise:
  "GeneralError_init fmt msg args = Inl TypeError \<and>
   ConfigurationError_init fmt msg args = Inl NameError"
  by (simp add: GeneralError_init_def ConfigurationError_init_def subclass_init_def
      super_check_def lookup_global_def module_globals_def)

theorem error_constructors_raise_witness:
  "GeneralError_init plain_format ''failed'' [] = Inl TypeError \<and>
   ConfigurationError_init plain_format ''failed'' [] = Inl NameError"
  using error_constructors_raise [of plain_format "''failed''" "[]"] by simp

text \<open>The sibling constructors, written the same way with the right names, do succeed.\<close>

lemma IoError_init_ok:
  "IoError_init plain_format msg [] =
     Inr \<lparr>exc_type = IoError, exitcode = PyInt 4, message = msg\<rparr>"
  by (simp add: IoError_init_def subclass_init_def super_check_def lookup_global_def
      module_globals_def ExitCodeError_init_def plain_format_def EXIT_CODE_IO_ERROR_def)

subsection \<open>Argument definitions\<close>

text \<open>
  C8. For every name, stdin flag and pair of bounds, constructing a \<open>NamedArgument\<close> fails
  (with \<open>ValueError\<close>, the invalid-definition error) exactly when
  \<open>min_occurrence > max_occurrence\<close>, or \<open>from_stdin\<close> is set and \<open>max_occurrence > 1\<close>;
  otherwise it returns the object with the four attributes as given, and nothing else
  happens (the constructor is a function of its arguments).
\<close>

theorem NamedArgument_init_valid:
  "NamedArgument_init oid (PyStr n) (PyBool fs) (PyInt mn) (PyInt mx) =
     (if mn > mx \<or> (fs \<and> mx > 1) then Inl ValueError
      else Inr \<lparr>ident = oid, name = n, from_stdin = fs, min_occurrence = mn,
                max_occurrence = mx\<rparr>)"
  by simp

theorem NamedArgument_init_valid_witness:
  "NamedArgument_init 0 (PyStr ''x'') (PyBool True) (PyInt 0) (PyInt 2) = Inl ValueError"
  using NamedArgument_init_valid [of 0 "''x''" True 0 2] by simp

subsection \<open>add\_handler\<close>

lemma partition_args_acc:
  "partition_args defs ps ns =
     (if list_ex is_other defs then Inl TypeError
      else Inr (ps @ positional_of defs, ns @ named_of defs))"
  by (induction defs ps ns rule: partition_args.induct) auto

text \<open>
  C4, as the code has it. \<open>add_handler\<close> fails (with \<open>TypeError\<close>, the invalid-definition
  error) exactly when some element is neither a \<open>PositionalArgument\<close> nor a
  \<open>NamedArgument\<close>. Otherwise it appends the registration, whatever the names of the named
  definitions are: there is no check for two named definitions with the same name.
\<close>

theorem add_handler_result:
  "add_handler h defs p w =
     (if list_ex is_other defs then Inl TypeError
      else Inr (p\<lparr>cmdline_handlers :=
                    cmdline_handlers p @ [(h, positional_of defs, next_ref w)]\<rparr>,
                w\<lparr>heap := (heap w)(next_ref w := named_of defs),
                  next_ref := Suc (next_ref w)\<rparr>))"
  by (simp add: add_handler_def partition_args_acc list_new_def)

theorem add_handler_result_witness:
  "add_handler ok_handler [Pos (PositionalArgument ''run''), Other PyNone]
     CommandProcessor_init empty_world = Inl TypeError"
  using add_handler_result [of ok_handler "[Pos (PositionalArgument ''run''), Other PyNone]"
      CommandProcessor_init empty_world]
  by simp

text \<open>
  The claim C4 fails for \<^verbatim>\<open>add_handler(ok_handler, NamedArgument("name", False, 0, 3),
  NamedArgument("NAME"))\<close>: both names are \<open>name\<close> in lower case, and the call succeeds.
\<close>

theorem add_handler_duplicate_names_accepted:
  "lower (name name_arg) = lower (name upper_name_arg) \<and>
   \<not> isl (add_handler ok_handler [Named name_arg, Named upper_name_arg]
            CommandProcessor_init empty_world)"
  by (simp add: add_handler_def list_new_def name_arg_def upper_name_arg_def str_eval)

subsection \<open>process: malformed named tokens\<close>

lemma split_arguments_malformed:
  "\<exists>t \<in> set args. malformed t \<Longrightarrow> split_arguments args ps ns = Inl InvalidFormat"
proof (induction args arbitrary: ps ns)
  case Nil
  then show ?case by simp
next
  case (Cons arg args)
  show ?case
  proof (cases "malformed arg")
    case True
    then show ?thesis by (simp add: malformed_def Let_def)
  next
    case False
    with Cons.prems have "\<exists>t \<in> set args. malformed t" by auto
    then show ?thesis using Cons.IH by (simp add: Let_def)
  qed
qed

lemma malformed_examples:
  "malformed ''--''" "malformed ''--=x''" "malformed '' --  =x''"
  by (simp_all add: malformed_def str_eval)

text \<open>
  C9. For every processor and every state, an invocation that contains a token whose key
  is empty after the marker is stripped (such as \<open>--\<close> or \<open>--=x\<close>) returns exit code 2,
  the code of \<open>CommandLineArgumentError\<close>. The only thing \<open>process\<close> does is report the
  invalid-format error: no handler is invoked, standard input and the store are as
  before, and the result does not depend on the registrations.
\<close>

theorem process_malformed_token:
  "\<exists>t \<in> set args. malformed t \<Longrightarrow>
   process p args w =
     (Returned (PyInt 2), p, w\<lparr>events := events w @ [ErrorReported InvalidFormat]\<rparr>)"
  by (simp add: process_def split_arguments_malformed report_def emit_def
      EXIT_CODE_COMMAND_LINE_ARGUMENT_ERROR_def)

theorem process_malformed_token_witness:
  "process run_processor [''run'', ''--''] run_world =
     (Returned (PyInt 2), run_processor,
      run_world\<lparr>events := events run_world @ [ErrorReported InvalidFormat]\<rparr>) \<and>
   process run_processor [''--=x''] run_world =
     (Returned (PyInt 2), run_processor,
      run_world\<lparr>events := events run_world @ [ErrorReported InvalidFormat]\<rparr>)"
  using process_malformed_token [of "[''run'', ''--'']" run_processor run_world]
    process_malformed_token [of "[''--=x'']" run_processor run_world]
    malformed_examples
  by simp

subsection \<open>process: the best fit\<close>

lemma split_arguments_length:
  "split_arguments args ps ns = Inr (pos, named) \<Longrightarrow> length pos \<le> length ps + length args"
proof (induction args arbitrary: ps ns)
  case Nil
  then show ?case by simp
next
  case (Cons a args)
  then show ?case
    by (fastforce simp: Let_def split: if_splits)
qed

lemma count_matching_bounds:
  "length ep \<le> length args \<Longrightarrow>
     \<exists>n. count_matching ep args = Inr n \<and> 0 \<le> n \<and> n \<le> int (length ep)"
proof (induction ep args rule: count_matching.induct)
  case (3 e es a args)
  then show ?case by (auto split: sum.splits)
qed auto

lemma count_matching_full:
  "length ep \<le> length args \<Longrightarrow>
     count_matching ep args = Inr (int (length ep)) \<longleftrightarrow>
     list_all2 (\<lambda>e a. lower a = lower (pos_name e)) ep (take (length ep) args)"
proof (induction ep args rule: count_matching.induct)
  case (3 e es a args)
  then have le: "length es \<le> length args" by simp
  from count_matching_bounds[OF le] obtain n where
    n: "count_matching es args = Inr n" "0 \<le> n" "n \<le> int (length es)" by blast
  show ?case
  proof (cases "lower a = lower (pos_name e)")
    case True
    then show ?thesis using 3 le n by auto
  next
    case False
    then show ?thesis by auto
  qed
qed auto

lemma find_best_fit_inv:
  assumes "length pos \<le> length args"
  shows "best_inv pre args pos (bi, bc) \<Longrightarrow>
     \<exists>bi' bc'. find_best_fit regs (int (length pre)) args pos (bi, bc) = Inr (bi', bc') \<and>
        best_inv (pre @ regs) args pos (bi', bc')"
proof (induction regs arbitrary: pre bi bc)
  case Nil
  then show ?case by simp
next
  case (Cons reg regs)
  obtain m ep en where reg: "reg = (m, ep, en)" by (cases reg) auto
  have idx: "int (length pre) + 1 = int (length (pre @ [reg]))" by simp
  have app: "(pre @ [reg]) @ regs = pre @ reg # regs" by simp
  have nth_old: "\<And>j. j < length pre \<Longrightarrow> (pre @ [reg]) ! j = pre ! j" by (simp add: nth_append)
  have nth_new: "(pre @ [reg]) ! length pre = reg" by simp
  have np: "npos reg = length ep" by (simp add: npos_def reg)
  show ?case
  proof (cases "length ep > length pos")
    case True
    then have nf: "\<not> fully_matching reg args pos" by (simp add: fully_matching_def np)
    have "best_inv (pre @ [reg]) args pos (bi, bc)"
      using Cons.prems nf
      by (auto simp: best_inv_def best_fit_def nth_append less_Suc_eq)
    from Cons.IH[OF this] show ?thesis using True
      by (simp add: reg add.commute)
  next
    case False
    then have le: "length ep \<le> length args" using assms by simp
    from count_matching_bounds[OF le] obtain mc where
      mc: "count_matching ep args = Inr mc" "0 \<le> mc" "mc \<le> int (length ep)" by blast
    have fm: "fully_matching reg args pos \<longleftrightarrow> mc = int (length ep)"
      using False count_matching_full[OF le] mc np by (simp add: fully_matching_def reg)
    show ?thesis
    proof (cases "mc = int (length ep) \<and> mc > bc")
      case True
      have "best_inv (pre @ [reg]) args pos (int (length pre), mc)"
        using Cons.prems True fm np
        by (auto simp: best_inv_def best_fit_def nth_append less_Suc_eq)
      from Cons.IH[OF this] show ?thesis using True False mc
        by (simp add: reg add.commute)
    next
      case F2: False
      have "best_inv (pre @ [reg]) args pos (bi, bc)"
        using Cons.prems F2 fm np mc
        by (auto simp: best_inv_def best_fit_def nth_append less_Suc_eq)
      from Cons.IH[OF this] show ?thesis using F2 False mc
        by (auto simp add: reg add.commute)
    qed
  qed
qed


lemma find_best_fit_result:
  assumes "split_arguments args [] [] = Inr (pos, named)"
  shows "\<exists>bi bc. find_best_fit regs 0 args pos (- 1, - 1) = Inr (bi, bc) \<and>
           best_inv regs args pos (bi, bc)"
proof -
  have le: "length pos \<le> length args"
    using split_arguments_length[OF assms] by simp
  have "best_inv [] args pos (- 1, - 1)" by (simp add: best_inv_def)
  from find_best_fit_inv[OF le this, of regs] show ?thesis by simp
qed

lemma process_selection:
  assumes "split_arguments args [] [] = Inr (pos, named)"
  shows "(\<exists>i. best_fit (cmdline_handlers p) args pos i \<and>
            process p args w = (case handle_command p i pos named w of (out, w') \<Rightarrow> (out, p, w'))) \<or>
         ((\<forall>j < length (cmdline_handlers p). \<not> fully_matching (cmdline_handlers p ! j) args pos) \<and>
            process p args w = (Returned PyNone, p, w))"
proof -
  from find_best_fit_result[OF assms, of "cmdline_handlers p"] obtain bi bc where
    f: "find_best_fit (cmdline_handlers p) 0 args pos (- 1, - 1) = Inr (bi, bc)" and
    inv: "best_inv (cmdline_handlers p) args pos (bi, bc)" by blast
  show ?thesis
  proof (cases "bi = - 1")
    case True
    with inv have "\<forall>j < length (cmdline_handlers p). \<not> fully_matching (cmdline_handlers p ! j) args pos"
      by (auto simp: best_inv_def)
    moreover have "process p args w = (Returned PyNone, p, w)"
      using True f assms by (simp add: process_def)
    ultimately show ?thesis by blast
  next
    case False
    with inv have "best_fit (cmdline_handlers p) args pos (nat bi)"
      by (auto simp: best_inv_def)
    moreover have "process p args w =
        (case handle_command p (nat bi) pos named w of (out, w') \<Rightarrow> (out, p, w'))"
      using False f assms by (simp add: process_def)
    ultimately show ?thesis by blast
  qed
qed


lemma split_arguments_wellformed:
  "\<forall>t \<in> set args. \<not> malformed t \<Longrightarrow>
     \<exists>named. split_arguments args ps ns = Inr (ps @ positional_tokens args, named)"
proof (induction args arbitrary: ps ns)
  case Nil
  then show ?case by (simp add: positional_tokens_def)
next
  case (Cons a args)
  from Cons.prems have rest: "\<forall>t \<in> set args. \<not> malformed t" and a: "\<not> malformed a" by simp_all
  show ?case
  proof (cases "startswith (strip a) ''--''")
    case True
    with a have "strip (lower (hd (split_str CHR ''='' (drop 2 (strip a))))) \<noteq> []"
      by (simp add: malformed_def)
    with True Cons.IH[OF rest] show ?thesis
      by (simp add: Let_def positional_tokens_def)
  next
    case False
    from Cons.IH[OF rest, of "ps @ [strip a]" ns] False show ?thesis
      by (simp add: Let_def positional_tokens_def)
  qed
qed

text \<open>
  C1, as the code has it. For every registry and every invocation in which no named
  token has an empty key, the splitting loop ends with the positional tokens, and
  \<open>process\<close> goes on with the best fit: a registration that asks for no more positional
  tokens than were supplied and whose names all match, such that every other such
  registration has fewer positional definitions, or as many and was registered later.
  When no registration matches fully, \<open>process\<close> returns \<open>None\<close> and leaves the state as
  it was: no handler is invoked and nothing is reported.
\<close>

theorem process_best_fit:
  assumes "\<forall>t \<in> set args. \<not> malformed t"
  shows "\<exists>named. split_arguments args [] [] = Inr (positional_tokens args, named) \<and>
     ((\<exists>i. best_fit (cmdline_handlers p) args (positional_tokens args) i \<and>
          process p args w =
            (case handle_command p i (positional_tokens args) named w of
               (out, w') \<Rightarrow> (out, p, w'))) \<or>
      ((\<forall>j < length (cmdline_handlers p).
           \<not> fully_matching (cmdline_handlers p ! j) args (positional_tokens args)) \<and>
         process p args w = (Returned PyNone, p, w)))"
proof -
  from split_arguments_wellformed[OF assms, of "[]" "[]"] obtain named where
    sp: "split_arguments args [] [] = Inr (positional_tokens args, named)" by auto
  from process_selection[OF sp, of p w] sp show ?thesis by blast
qed



lemma lower_examples:
  "lower ''RUN'' = ''run''" "lower ''run'' = ''run''" "lower ''fast'' = ''fast''"
  "lower ''walk'' = ''walk''" "lower ''--'' = ''--''"
  by (simp_all add: str_eval)

lemma fast_processor_walk:
  "\<not> fully_matching (cmdline_handlers fast_processor ! i) (''walk'' # rest) [''walk'']"
  if "i < 3" for i
proof -
  from that consider "i = 0" | "i = 1" | "i = 2" by linarith
  then show ?thesis
    by cases (simp_all add: fully_matching_def npos_def fast_processor_def lower_examples)
qed

theorem process_best_fit_witness:
  "\<not> malformed ''RUN'' \<and> \<not> malformed ''fast'' \<and> \<not> malformed ''walk'' \<and>
   positional_tokens [''RUN'', ''fast''] = [''RUN'', ''fast''] \<and>
   best_fit (cmdline_handlers fast_processor) [''RUN'', ''fast''] [''RUN'', ''fast''] 1 \<and>
   process fast_processor [''RUN'', ''fast''] fast_world =
     (Returned (PyInt 1), fast_processor,
      fast_world\<lparr>heap := (heap fast_world)(3 := []), next_ref := 4,
        events := [HandlerInvoked 1 [''RUN'', ''fast''] []]\<rparr>) \<and>
   positional_tokens [''walk''] = [''walk''] \<and>
   process fast_processor [''walk''] fast_world = (Returned PyNone, fast_processor, fast_world)"
proof -
  have m: "\<not> malformed ''RUN''" "\<not> malformed ''fast''" "\<not> malformed ''walk''"
    by (simp_all add: malformed_def str_eval)
  have t1: "positional_tokens [''RUN'', ''fast''] = [''RUN'', ''fast'']"
    by (simp add: positional_tokens_def str_eval)
  have t2: "positional_tokens [''walk''] = [''walk'']"
    by (simp add: positional_tokens_def str_eval)
  have b: "best_fit (cmdline_handlers fast_processor) [''RUN'', ''fast''] [''RUN'', ''fast''] 1"
    by (simp add: best_fit_def fully_matching_def npos_def fast_processor_def lower_examples
        less_Suc_eq numeral_3_eq_3)
  have p1: "process fast_processor [''RUN'', ''fast''] fast_world =
     (Returned (PyInt 1), fast_processor,
      fast_world\<lparr>heap := (heap fast_world)(3 := []), next_ref := 4,
        events := [HandlerInvoked 1 [''RUN'', ''fast''] []]\<rparr>)"
    by (simp add: fast_processor_def fast_world_def world_eval str_eval one_handler_def)
  have len: "length (cmdline_handlers fast_processor) = 3"
    by (simp add: fast_processor_def)
  have n: "\<not> (\<exists>i. best_fit (cmdline_handlers fast_processor) [''walk''] [''walk''] i)"
    using fast_processor_walk [of _ "[]"] len by (auto simp: best_fit_def)
  have w: "\<forall>t \<in> set [''walk'']. \<not> malformed t" using m by simp
  from process_best_fit [OF w, of fast_processor fast_world] n
  have p2: "process fast_processor [''walk''] fast_world = (Returned PyNone, fast_processor, fast_world)"
    unfolding t2 by blast
  from m t1 t2 b p1 p2 show ?thesis by blast
qed

text \<open>
  The claim C1 fails for invocations with a named token whose key is empty. For
  \<open>walk --\<close> no registration matches fully, yet \<open>process\<close> does not return \<open>None\<close>: it
  reports the invalid format and returns exit code 2. For \<open>run --\<close> the registration
  \<open>run\<close> matches fully, yet it is not selected: the result is the same exit code 2 and
  no handler is invoked.
\<close>

theorem malformed_token_preempts_selection:
  "positional_tokens [''walk'', ''--''] = [''walk''] \<and>
   length (cmdline_handlers fast_processor) = 3 \<and>
   \<not> fully_matching (cmdline_handlers fast_processor ! 0) [''walk'', ''--''] [''walk''] \<and>
   \<not> fully_matching (cmdline_handlers fast_processor ! 1) [''walk'', ''--''] [''walk''] \<and>
   \<not> fully_matching (cmdline_handlers fast_processor ! 2) [''walk'', ''--''] [''walk''] \<and>
   process fast_processor [''walk'', ''--''] fast_world =
     (Returned (PyInt 2), fast_processor,
      fast_world\<lparr>events := [ErrorReported InvalidFormat]\<rparr>) \<and>
   positional_tokens [''run'', ''--''] = [''run''] \<and>
   fully_matching (cmdline_handlers fast_processor ! 0) [''run'', ''--''] [''run''] \<and>
   process fast_processor [''run'', ''--''] fast_world =
     (Returned (PyInt 2), fast_processor,
      fast_world\<lparr>events := [ErrorReported InvalidFormat]\<rparr>)"
proof -
  have t: "positional_tokens [''walk'', ''--''] = [''walk'']"
    "positional_tokens [''run'', ''--''] = [''run'']"
    by (simp_all add: positional_tokens_def str_eval)
  have len: "length (cmdline_handlers fast_processor) = 3"
    by (simp add: fast_processor_def)
  have f: "fully_matching (cmdline_handlers fast_processor ! 0) [''run'', ''--''] [''run'']"
    by (simp add: fully_matching_def npos_def fast_processor_def lower_examples)
  have p1: "process fast_processor [''walk'', ''--''] fast_world =
     (Returned (PyInt 2), fast_processor,
      fast_world\<lparr>events := [ErrorReported InvalidFormat]\<rparr>)"
    by (simp add: fast_world_def world_eval str_eval)
  have p2: "process fast_processor [''run'', ''--''] fast_world =
     (Returned (PyInt 2), fast_processor,
      fast_world\<lparr>events := [ErrorReported InvalidFormat]\<rparr>)"
    by (simp add: fast_world_def world_eval str_eval)
  from t len f p1 p2 fast_processor_walk [of 0 "[''--'']"] fast_processor_walk [of 1 "[''--'']"]
    fast_processor_walk [of 2 "[''--'']"]
  show ?thesis by simp
qed

subsection \<open>process: what a call changes\<close>

lemma remove_if_in_frame [simp]:
  "events (remove_if_in r x w) = events w"
  "next_ref (remove_if_in r x w) = next_ref w"
  "stdin_isatty (remove_if_in r x w) = stdin_isatty w"
  "stdin_buffer (remove_if_in r x w) = stdin_buffer w"
  "r' \<noteq> r \<Longrightarrow> heap (remove_if_in r x w) r' = heap w r'"
  by (simp_all add: remove_if_in_def)

lemma remove_if_in_cell:
  "heap (remove_if_in r x w) r = (if x \<in> set (heap w r) then remove1 x (heap w r) else heap w r)"
  by (simp add: remove_if_in_def)

lemma check_specified_frame:
  "check_specified named e ns w = (r, w') \<Longrightarrow>
     events w' = events w \<and> next_ref w' = next_ref w \<and> stdin_isatty w' = stdin_isatty w \<and>
     stdin_buffer w' = stdin_buffer w \<and> (\<forall>r'. r' \<noteq> ns \<longrightarrow> heap w' r' = heap w r')"
proof (induction named arbitrary: w)
  case Nil
  then show ?case by simp
next
  case (Cons kv named)
  obtain k vs where kv: "kv = (k, vs)" by (cases kv)
  show ?case
  proof (cases "find (\<lambda>x. lower k = name x) (heap w e)")
    case None
    with Cons.prems kv show ?thesis by simp
  next
    case (Some d)
    let ?w1 = "remove_if_in ns d w"
    show ?thesis
    proof (cases "int (length vs) < min_occurrence d \<or> int (length vs) > max_occurrence d")
      case True
      with Cons.prems kv Some have "w' = ?w1" by (auto simp: Let_def split: if_splits)
      then show ?thesis by simp
    next
      case False
      with Cons.prems kv Some have "check_specified named e ns ?w1 = (r, w')"
        by (auto simp: Let_def)
      from Cons.IH[OF this] show ?thesis by simp
    qed
  qed
qed

lemma readline_if_no_tty_frame:
  "readline_if_no_tty w = (v, w') \<Longrightarrow>
     events w' = events w \<and> next_ref w' = next_ref w \<and> stdin_isatty w' = stdin_isatty w \<and>
     heap w' = heap w"
  by (auto simp: readline_if_no_tty_def Let_def split: if_splits prod.splits)

lemma read_from_stdin_frame:
  "read_from_stdin d ns w = (v, w') \<Longrightarrow>
     events w' = events w \<and> next_ref w' = next_ref w \<and> stdin_isatty w' = stdin_isatty w \<and>
     (\<forall>r'. r' \<noteq> ns \<longrightarrow> heap w' r' = heap w r')"
  by (auto simp: read_from_stdin_def split: if_splits prod.splits option.splits
      dest!: readline_if_no_tty_frame)

lemma craft_effective_frame:
  "craft_effective defs named ns eff w = (eff', w') \<Longrightarrow>
     events w' = events w \<and> next_ref w' = next_ref w \<and> stdin_isatty w' = stdin_isatty w \<and>
     (\<forall>r'. r' \<noteq> ns \<longrightarrow> heap w' r' = heap w r')"
proof (induction defs arbitrary: eff w)
  case Nil
  then show ?case by simp
next
  case (Cons d defs)
  obtain v w1 where r: "read_from_stdin d ns w = (v, w1)" by (cases "read_from_stdin d ns w")
  with Cons.prems have
    "craft_effective defs named ns (dict_set eff (name d) (effective_values named d v)) w1 = (eff', w')"
    by simp
  from Cons.IH[OF this] read_from_stdin_frame[OF r] show ?case by simp
qed


lemma route_exception_frame:
  "route_exception rs i e w = Some (out, w') \<Longrightarrow>
     \<exists>k. events w' = events w @ [ExceptionHandlerInvoked k e] \<and> heap w' = heap w \<and>
       next_ref w' = next_ref w \<and> stdin_buffer w' = stdin_buffer w \<and>
       stdin_isatty w' = stdin_isatty w"
  by (induction rs i e w rule: route_exception.induct) (auto simp: emit_def split: if_splits)

lemma handle_exception_frame:
  "handle_exception p e w = (out, w') \<Longrightarrow>
     \<exists>evs. events w' = events w @ evs \<and> (\<forall>ev \<in> set evs. \<not> is_invocation ev) \<and>
       heap w' = heap w \<and> next_ref w' = next_ref w \<and> stdin_buffer w' = stdin_buffer w \<and>
       stdin_isatty w' = stdin_isatty w"
  by (auto simp: handle_exception_def emit_def split: option.splits if_splits
      dest!: route_exception_frame)

lemma invoke_handler_frame:
  "invoke_handler p i h pos eff w = (out, w') \<Longrightarrow>
     \<exists>evs. events w' = events w @ HandlerInvoked i pos eff # evs \<and>
       (\<forall>ev \<in> set evs. \<not> is_invocation ev) \<and>
       heap w' = heap w \<and> next_ref w' = next_ref w \<and> stdin_buffer w' = stdin_buffer w \<and>
       stdin_isatty w' = stdin_isatty w"
  by (auto simp: invoke_handler_def Let_def emit_def split: handler_result.splits if_splits
      dest!: handle_exception_frame)

lemma list_copy_simps [simp]:
  "fst (list_copy r w) = next_ref w"
  "events (snd (list_copy r w)) = events w"
  "next_ref (snd (list_copy r w)) = Suc (next_ref w)"
  "stdin_isatty (snd (list_copy r w)) = stdin_isatty w"
  "stdin_buffer (snd (list_copy r w)) = stdin_buffer w"
  "heap (snd (list_copy r w)) = (heap w)(next_ref w := heap w r)"
  by (simp_all add: list_copy_def)

text \<open>The three ways the body of the try can end.\<close>

lemma handle_command_cases:
  assumes reg: "cmdline_handlers p ! i = (h, ep, en)"
    and hc: "handle_command p i pos named w = (out, w')"
  obtains
    (specified) err w1 where
      "check_specified named en (next_ref w) (snd (list_copy en w)) = (Some err, w1)"
      "out = Returned (PyInt 2)" "w' = report err w1"
  | (required) w1 eff w2 d where
      "check_specified named en (next_ref w) (snd (list_copy en w)) = (None, w1)"
      "craft_effective (heap w1 en) named (next_ref w) [] w1 = (eff, w2)"
      "find (\<lambda>arg_def. min_occurrence arg_def > 0) (heap w2 (next_ref w)) = Some d"
      "out = Returned (PyInt 2)" "w' = report (MustBeSpecified d) w2"
  | (invoked) w1 eff w2 where
      "check_specified named en (next_ref w) (snd (list_copy en w)) = (None, w1)"
      "craft_effective (heap w1 en) named (next_ref w) [] w1 = (eff, w2)"
      "find (\<lambda>arg_def. min_occurrence arg_def > 0) (heap w2 (next_ref w)) = None"
      "invoke_handler p i h pos eff w2 = (out, w')"
proof -
  obtain r w1 where cs: "check_specified named en (next_ref w) (snd (list_copy en w)) = (r, w1)"
    by (cases "check_specified named en (next_ref w) (snd (list_copy en w))")
  obtain eff w2 where cr: "craft_effective (heap w1 en) named (next_ref w) [] w1 = (eff, w2)"
    by (cases "craft_effective (heap w1 en) named (next_ref w) [] w1")
  have hc': "(case check_specified named en (next_ref w) (snd (list_copy en w)) of
       (Some err, w1) \<Rightarrow> (Returned (PyInt EXIT_CODE_COMMAND_LINE_ARGUMENT_ERROR), report err w1)
     | (None, w1) \<Rightarrow>
         (let (effective, w2) = craft_effective (heap w1 en) named (next_ref w) [] w1
          in case find (\<lambda>arg_def. min_occurrence arg_def > 0) (heap w2 (next_ref w)) of
               Some arg_def \<Rightarrow> (Returned (PyInt EXIT_CODE_COMMAND_LINE_ARGUMENT_ERROR), report (MustBeSpecified arg_def) w2)
             | None \<Rightarrow> invoke_handler p i h pos effective w2)) = (out, w')"
    unfolding hc [symmetric]
    by (simp add: handle_command_def reg list_copy_def)
  show ?thesis
  proof (cases r)
    case (Some err)
    with hc' cs have "out = Returned (PyInt 2)" "w' = report err w1"
      by (auto simp: EXIT_CODE_COMMAND_LINE_ARGUMENT_ERROR_def)
    with specified cs Some show ?thesis by blast
  next
    case None
    show ?thesis
    proof (cases "find (\<lambda>arg_def. min_occurrence arg_def > 0) (heap w2 (next_ref w))")
      case N2: None
      with hc' cs cr None have "invoke_handler p i h pos eff w2 = (out, w')"
        by auto
      with invoked cs cr None N2 show ?thesis by blast
    next
      case (Some d)
      with hc' cs cr None have "out = Returned (PyInt 2)" "w' = report (MustBeSpecified d) w2"
        by (auto simp: EXIT_CODE_COMMAND_LINE_ARGUMENT_ERROR_def)
      with required cs cr None Some show ?thesis by blast
    qed
  qed
qed


lemma process_cases:
  assumes pr: "process p args w = (out, p', w')"
  obtains
    (malformed) err where
      "split_arguments args [] [] = Inl err" "out = Returned (PyInt 2)" "w' = report err w" "p' = p"
  | (not_handled) pos named where
      "split_arguments args [] [] = Inr (pos, named)"
      "\<forall>j < length (cmdline_handlers p). \<not> fully_matching (cmdline_handlers p ! j) args pos"
      "out = Returned PyNone" "w' = w" "p' = p"
  | (selected) pos named i h ep en where
      "split_arguments args [] [] = Inr (pos, named)"
      "best_fit (cmdline_handlers p) args pos i"
      "cmdline_handlers p ! i = (h, ep, en)"
      "handle_command p i pos named w = (out, w')" "p' = p"
proof (cases "split_arguments args [] []")
  case (Inl err)
  with pr have "out = Returned (PyInt 2)" "w' = report err w" "p' = p"
    by (auto simp: process_def EXIT_CODE_COMMAND_LINE_ARGUMENT_ERROR_def)
  with malformed Inl show ?thesis by blast
next
  case (Inr pn)
  obtain pos named where pn: "pn = (pos, named)" by (cases pn)
  have sp: "split_arguments args [] [] = Inr (pos, named)" using Inr pn by simp
  from process_selection[OF sp, of p w] show ?thesis
  proof
    assume "\<exists>i. best_fit (cmdline_handlers p) args pos i \<and>
       process p args w = (case handle_command p i pos named w of (out, w') \<Rightarrow> (out, p, w'))"
    then obtain i where bf: "best_fit (cmdline_handlers p) args pos i" and
      e: "process p args w = (case handle_command p i pos named w of (out, w') \<Rightarrow> (out, p, w'))"
      by blast
    obtain h ep en where reg: "cmdline_handlers p ! i = (h, ep, en)"
      by (cases "cmdline_handlers p ! i")
    from e pr have "handle_command p i pos named w = (out, w')" "p' = p"
      by (auto split: prod.splits)
    with selected sp bf reg show ?thesis by blast
  next
    assume a: "(\<forall>j<length (cmdline_handlers p). \<not> fully_matching (cmdline_handlers p ! j) args pos) \<and>
      process p args w = (Returned PyNone, p, w)"
    then have "(out, p', w') = (Returned PyNone, p, w)" unfolding pr [symmetric] by simp
    then have "out = Returned PyNone" "w' = w" "p' = p" by simp_all
    with not_handled [OF sp] a show ?thesis by blast
  qed
qed

lemma handle_command_heap:
  assumes "handle_command p i pos named w = (out, w')"
  shows "\<forall>r < next_ref w. heap w' r = heap w r"
proof -
  obtain h ep en where reg: "cmdline_handlers p ! i = (h, ep, en)"
    by (cases "cmdline_handlers p ! i")
  from reg assms show ?thesis
  proof (cases rule: handle_command_cases)
    case (specified err w1)
    from check_specified_frame[OF specified(1)] specified(3) show ?thesis
      by (auto simp: report_def emit_def)
  next
    case (required w1 eff w2 d)
    from check_specified_frame[OF required(1)] craft_effective_frame[OF required(2)] required(5)
    show ?thesis by (auto simp: report_def emit_def)
  next
    case (invoked w1 eff w2)
    from check_specified_frame[OF invoked(1)] craft_effective_frame[OF invoked(2)]
      invoke_handler_frame[OF invoked(4)]
    show ?thesis by auto
  qed
qed


text \<open>
  C10. Whatever \<open>process\<close> returns or raises, the processor afterwards is the processor
  before (its registrations, with their positional definitions, and its exception
  handlers), and every list object that existed before the call, among them the lists of
  named definitions of the registrations, holds the same definitions as before: the
  bookkeeping removes only from the list object the call itself created as a copy. So a
  second call finds the registry the first call found.
\<close>

theorem process_preserves_registry:
  assumes "process p args w = (out, p', w')"
  shows "p' = p \<and> (\<forall>r < next_ref w. heap w' r = heap w r)"
  using assms
proof (cases rule: process_cases)
  case (malformed err)
  then show ?thesis by (simp add: report_def emit_def)
next
  case (not_handled pos named)
  then show ?thesis by simp
next
  case (selected pos named i h ep en)
  with handle_command_heap[OF selected(4)] show ?thesis by simp
qed


theorem process_preserves_registry_witness:
  "fst (process run_processor [''run'', ''--name=a''] run_world) = Returned (PyInt 0) \<and>
   fst (snd (process run_processor [''run'', ''--name=a''] run_world)) = run_processor \<and>
   heap (snd (snd (process run_processor [''run'', ''--name=a''] run_world))) 0 =
     heap run_world 0 \<and>
   heap run_world 0 = [name_arg] \<and>
   heap (snd (snd (process run_processor [''run'', ''--name=a''] run_world))) 1 = []"
proof -
  have e: "process run_processor [''run'', ''--name=a''] run_world =
     (Returned (PyInt 0), run_processor,
      run_world\<lparr>heap := (heap run_world)(1 := []), next_ref := 2,
        events := [HandlerInvoked 0 [''run''] [(''name'', [''a''])]]\<rparr>)"
    by (simp add: run_processor_def run_world_def name_arg_def world_eval str_eval
        ok_handler_def)
  have "0 < next_ref run_world" by (simp add: run_world_def)
  with process_preserves_registry [OF e]
  have "heap (run_world\<lparr>heap := (heap run_world)(1 := []), next_ref := 2,
        events := [HandlerInvoked 0 [''run''] [(''name'', [''a''])]]\<rparr>) 0 = heap run_world 0"
    by blast
  with e show ?thesis by (simp add: run_world_def empty_world_def)
qed

subsection \<open>process: a handler that returns no exit code\<close>

lemma route_exception_find:
  "map_option fst (route_exception rs i e w) =
     map_option (\<lambda>rt. outcome_of (fst rt e)) (find (\<lambda>rt. snd rt = exc_type e) rs)"
  by (induction rs i e w rule: route_exception.induct) auto

lemma handle_exception_violation:
  "fst (handle_exception p contract_violation w) =
     (case find (\<lambda>rt. snd rt = RuntimeError) (exception_handlers p) of
        None \<Rightarrow> Raised contract_violation
      | Some rt \<Rightarrow> outcome_of (fst rt contract_violation))"
proof -
  have t: "exc_type contract_violation = RuntimeError"
    by (simp add: contract_violation_def builtin_exception_def)
  have ni: "\<not> isinstance contract_violation ExitCodeError"
    by (simp add: isinstance_def t)
  show ?thesis
    using route_exception_find[of "exception_handlers p" 0 contract_violation w]
    by (auto simp: handle_exception_def t ni split: option.splits)
qed

lemma handle_command_invoked:
  assumes reg: "cmdline_handlers p ! i = (h, ep, en)"
    and hc: "handle_command p i pos named w = (out, w')"
    and ev: "HandlerInvoked j pos' eff \<in> set (new_events w w')"
  shows "j = i \<and> pos' = pos \<and>
    (\<exists>w1 w2. check_specified named en (next_ref w) (snd (list_copy en w)) = (None, w1) \<and>
       craft_effective (heap w1 en) named (next_ref w) [] w1 = (eff, w2) \<and>
       find (\<lambda>arg_def. min_occurrence arg_def > 0) (heap w2 (next_ref w)) = None \<and>
       invoke_handler p i h pos eff w2 = (out, w'))"
  using reg hc
proof (cases rule: handle_command_cases)
  case (specified err w1)
  from check_specified_frame[OF specified(1)] specified(3) ev show ?thesis
    by (auto simp: report_def emit_def new_events_def)
next
  case (required w1 eff' w2 d)
  from check_specified_frame[OF required(1)] craft_effective_frame[OF required(2)] required(5) ev
  show ?thesis by (auto simp: report_def emit_def new_events_def)
next
  case (invoked w1 eff' w2)
  from check_specified_frame[OF invoked(1)] craft_effective_frame[OF invoked(2)]
  have e2: "events w2 = events w" by simp
  from invoke_handler_frame[OF invoked(4)] obtain evs where
    evs: "events w' = events w2 @ HandlerInvoked i pos eff' # evs"
      "\<forall>ev \<in> set evs. \<not> is_invocation ev" by blast
  from ev evs e2 have "j = i \<and> pos' = pos \<and> eff = eff'"
    by (auto simp: new_events_def)
  with invoked show ?thesis by blast
qed

lemma process_invoked:
  assumes pr: "process p args w = (out, p', w')"
    and ev: "HandlerInvoked i pos eff \<in> set (new_events w w')"
    and reg: "cmdline_handlers p ! i = (h, ep, en)"
  shows "\<exists>named w1 w2. split_arguments args [] [] = Inr (pos, named) \<and>
       best_fit (cmdline_handlers p) args pos i \<and>
       check_specified named en (next_ref w) (snd (list_copy en w)) = (None, w1) \<and>
       craft_effective (heap w1 en) named (next_ref w) [] w1 = (eff, w2) \<and>
       find (\<lambda>arg_def. min_occurrence arg_def > 0) (heap w2 (next_ref w)) = None \<and>
       invoke_handler p i h pos eff w2 = (out, w')"
  using pr
proof (cases rule: process_cases)
  case (malformed err)
  with ev show ?thesis by (simp add: new_events_def report_def emit_def)
next
  case (not_handled pos named)
  with ev show ?thesis by (simp add: new_events_def)
next
  case (selected pos' named k h' ep' en')
  from handle_command_invoked[OF selected(3,4) ev] reg selected show ?thesis
    by auto
qed


text \<open>
  C6, as the code has it. When the handler \<open>process\<close> invokes returns something that is
  not an \<open>int\<close>, \<open>process\<close> raises a \<open>RuntimeError\<close> inside its \<^verbatim>\<open>try\<close>, and the
  \<^verbatim>\<open>except\<close> clause treats it as any exception of a handler: the first exception handler
  registered for exactly \<open>RuntimeError\<close> is called and what it returns is what \<open>process\<close>
  returns; when there is none, the \<open>RuntimeError\<close> leaves \<open>process\<close> (it is no
  \<open>ExitCodeError\<close>, so it is not turned into an exit code).
\<close>

theorem contract_violation_routed:
  assumes "process p args w = (out, p', w')"
    and "HandlerInvoked i pos eff \<in> set (new_events w w')"
    and "cmdline_handlers p ! i = (h, ep, en)"
    and "h pos eff = Return v" and "\<not> type_is_int v"
  shows "out = (case find (\<lambda>rt. snd rt = RuntimeError) (exception_handlers p) of
        None \<Rightarrow> Raised contract_violation
      | Some rt \<Rightarrow> outcome_of (fst rt contract_violation))"
proof -
  from process_invoked[OF assms(1,2,3)] obtain w2 where
    "invoke_handler p i h pos eff w2 = (out, w')" by blast
  then have "out = fst (handle_exception p contract_violation
      (emit (HandlerInvoked i pos eff) w2))"
    using assms(4,5) by (auto simp: invoke_handler_def Let_def contract_violation_def)
  then show ?thesis by (simp add: handle_exception_violation)
qed



theorem contract_violation_routed_witness:
  "HandlerInvoked 0 [] [] \<in>
     set (new_events routed_world (snd (snd (process routed_processor [] routed_world)))) \<and>
   none_handler [] [] = Return PyNone \<and>
   fst (process routed_processor [] routed_world) = Returned (PyInt 7) \<and>
   fst (process unrouted_processor [] routed_world) = Raised contract_violation"
proof -
  have e1: "process routed_processor [] routed_world =
     (Returned (PyInt 7), routed_processor,
      routed_world\<lparr>heap := (heap routed_world)(1 := []), next_ref := 2,
        events := [HandlerInvoked 0 [] [], ExceptionHandlerInvoked 0 contract_violation]\<rparr>)"
    by (simp add: routed_processor_def routed_world_def world_eval none_handler_def
        seven_route_def contract_violation_def builtin_exception_def)
  have e2: "process unrouted_processor [] routed_world =
     (Raised contract_violation, unrouted_processor,
      routed_world\<lparr>heap := (heap routed_world)(1 := []), next_ref := 2,
        events := [HandlerInvoked 0 [] []]\<rparr>)"
    by (simp add: unrouted_processor_def routed_world_def world_eval none_handler_def
        contract_violation_def builtin_exception_def isinstance_def)
  have v1: "HandlerInvoked 0 [] [] \<in> set (new_events routed_world
      (routed_world\<lparr>heap := (heap routed_world)(1 := []), next_ref := 2,
        events := [HandlerInvoked 0 [] [], ExceptionHandlerInvoked 0 contract_violation]\<rparr>))"
    by (simp add: new_events_def routed_world_def empty_world_def)
  have v2: "HandlerInvoked 0 [] [] \<in> set (new_events routed_world
      (routed_world\<lparr>heap := (heap routed_world)(1 := []), next_ref := 2,
        events := [HandlerInvoked 0 [] []]\<rparr>))"
    by (simp add: new_events_def routed_world_def empty_world_def)
  have r1: "cmdline_handlers routed_processor ! 0 = (none_handler, [], 0)"
    by (simp add: routed_processor_def)
  have r2: "cmdline_handlers unrouted_processor ! 0 = (none_handler, [], 0)"
    by (simp add: unrouted_processor_def)
  have h: "none_handler [] [] = Return PyNone" by (simp add: none_handler_def)
  have "Raised contract_violation =
      (case find (\<lambda>rt. snd rt = RuntimeError) (exception_handlers unrouted_processor) of
         None \<Rightarrow> Raised contract_violation
       | Some rt \<Rightarrow> outcome_of (fst rt contract_violation))"
    using contract_violation_routed [OF e2 v2 r2 h] by simp
  moreover have "Returned (PyInt 7) =
      (case find (\<lambda>rt. snd rt = RuntimeError) (exception_handlers routed_processor) of
         None \<Rightarrow> Raised contract_violation
       | Some rt \<Rightarrow> outcome_of (fst rt contract_violation))"
    using contract_violation_routed [OF e1 v1 r1 h] by simp
  ultimately show ?thesis using e1 e2 v1 h by simp
qed

text \<open>
  The claim C6 fails for a processor with an exception handler registered for
  \<open>RuntimeError\<close>: the handler returns \<open>None\<close>, the exception handler is called with the
  \<open>RuntimeError\<close>, and \<open>process\<close> returns its 7 as the exit code.
\<close>

theorem contract_violation_consumed:
  "process routed_processor [] routed_world =
     (Returned (PyInt 7), routed_processor,
      routed_world\<lparr>heap := (heap routed_world)(1 := []), next_ref := 2,
        events := [HandlerInvoked 0 [] [], ExceptionHandlerInvoked 0 contract_violation]\<rparr>)"
  by (simp add: routed_processor_def routed_world_def world_eval none_handler_def
      seven_route_def contract_violation_def builtin_exception_def)

subsection \<open>process: named arguments and standard input\<close>

lemma map_of_dict_set: "map_of (dict_set d k v) = (map_of d)(k \<mapsto> v)"
  by (induction d k v rule: dict_set.induct) auto

lemma craft_effective_append:
  "craft_effective (ds1 @ ds2) named ns eff w =
     (case craft_effective ds1 named ns eff w of
        (eff1, w1) \<Rightarrow> craft_effective ds2 named ns eff1 w1)"
  by (induction ds1 arbitrary: eff w) (auto split: prod.splits)

lemma craft_effective_other_names:
  "k \<notin> name ` set defs \<Longrightarrow>
     map_of (fst (craft_effective defs named ns eff w)) k = map_of eff k"
  by (induction defs arbitrary: eff w) (auto split: prod.splits simp: map_of_dict_set)

lemma effective_values_specified:
  "map_of named (name d) = Some vs \<Longrightarrow> vs \<noteq> [] \<Longrightarrow> effective_values named d v = vs"
  by (auto simp: effective_values_def split: option.splits)

lemma craft_effective_specified:
  "map_of named k = Some vs \<Longrightarrow> vs \<noteq> [] \<Longrightarrow> k \<in> name ` set defs \<Longrightarrow>
     map_of (fst (craft_effective defs named ns eff w)) k = Some vs"
proof (induction defs arbitrary: eff w)
  case Nil
  then show ?case by simp
next
  case (Cons d defs)
  obtain v w1 where r: "read_from_stdin d ns w = (v, w1)" by (cases "read_from_stdin d ns w")
  show ?case
  proof (cases "k \<in> name ` set defs")
    case True
    with Cons r show ?thesis by simp
  next
    case False
    with Cons.prems have k: "k = name d" by auto
    with Cons.prems have "effective_values named d v = vs"
      by (simp add: effective_values_specified)
    with False r k show ?thesis
      by (simp add: craft_effective_other_names map_of_dict_set)
  qed
qed

lemma read_from_stdin_tty:
  "stdin_isatty w \<Longrightarrow>
     read_from_stdin d ns w =
       (None, if from_stdin d \<and> max_occurrence d = 1 then remove_if_in ns d w else w)"
  by (simp add: read_from_stdin_def readline_if_no_tty_def)

lemma craft_effective_tty_absent:
  "stdin_isatty w \<Longrightarrow> map_of named k = None \<Longrightarrow> k \<in> name ` set defs \<Longrightarrow>
     map_of (fst (craft_effective defs named ns eff w)) k = Some []"
proof (induction defs arbitrary: eff w)
  case Nil
  then show ?case by simp
next
  case (Cons d defs)
  let ?w1 = "if from_stdin d \<and> max_occurrence d = 1 then remove_if_in ns d w else w"
  have r: "read_from_stdin d ns w = (None, ?w1)"
    using Cons.prems(1) by (rule read_from_stdin_tty)
  have tty: "stdin_isatty ?w1" using Cons.prems(1) by simp
  show ?case
  proof (cases "k \<in> name ` set defs")
    case True
    from Cons.IH[OF tty Cons.prems(2) True] r show ?thesis by simp
  next
    case False
    with Cons.prems have k: "k = name d" by auto
    with Cons.prems have "effective_values named d None = []"
      by (simp add: effective_values_def)
    with False r k show ?thesis
      by (simp add: craft_effective_other_names map_of_dict_set)
  qed
qed

lemma count_list_remove1:
  "count_list (remove1 x xs) y =
     (if x = y \<and> x \<in> set xs then count_list xs y - 1 else count_list xs y)"
  by (induction xs) auto

lemma remove_if_in_count:
  "count_list (heap (remove_if_in ns x w) ns) y =
     (if x = y \<and> x \<in> set (heap w ns) then count_list (heap w ns) y - 1
      else count_list (heap w ns) y)"
  by (simp add: remove_if_in_def count_list_remove1)

lemma craft_effective_tty_removes:
  "stdin_isatty w \<Longrightarrow> from_stdin d \<Longrightarrow> max_occurrence d = 1 \<Longrightarrow>
   count_list (heap w ns) d \<le> count_list defs d \<Longrightarrow>
     d \<notin> set (heap (snd (craft_effective defs named ns eff w)) ns)"
proof (induction defs arbitrary: eff w)
  case Nil
  then show ?case by (simp add: count_list_0_iff)
next
  case (Cons a defs)
  let ?w1 = "if from_stdin a \<and> max_occurrence a = 1 then remove_if_in ns a w else w"
  have r: "read_from_stdin a ns w = (None, ?w1)"
    using Cons.prems(1) by (rule read_from_stdin_tty)
  have tty: "stdin_isatty ?w1" using Cons.prems(1) by simp
  have "count_list (heap ?w1 ns) d \<le> count_list defs d"
  proof (cases "a = d")
    case True
    then show ?thesis using Cons.prems
      by (auto simp: remove_if_in_count count_list_0_iff)
  next
    case False
    then show ?thesis using Cons.prems
      by (auto simp: remove_if_in_count)
  qed
  from Cons.IH[OF tty Cons.prems(2,3) this] r show ?case by simp
qed

lemma check_specified_count:
  "check_specified named e ns w = (r, w') \<Longrightarrow>
     count_list (heap w' ns) x \<le> count_list (heap w ns) x"
proof (induction named arbitrary: w)
  case Nil
  then show ?case by simp
next
  case (Cons kv named)
  obtain k vs where kv: "kv = (k, vs)" by (cases kv)
  show ?case
  proof (cases "find (\<lambda>x. lower k = name x) (heap w e)")
    case None
    with Cons.prems kv show ?thesis by simp
  next
    case (Some d)
    let ?w1 = "remove_if_in ns d w"
    have le: "count_list (heap ?w1 ns) x \<le> count_list (heap w ns) x"
      by (simp add: remove_if_in_count)
    show ?thesis
    proof (cases "int (length vs) < min_occurrence d \<or> int (length vs) > max_occurrence d")
      case True
      with Cons.prems kv Some have "w' = ?w1" by (auto simp: Let_def split: if_splits)
      with le show ?thesis by simp
    next
      case False
      with Cons.prems kv Some have "check_specified named e ns ?w1 = (r, w')"
        by (auto simp: Let_def)
      from Cons.IH[OF this] le show ?thesis by simp
    qed
  qed
qed

lemma check_specified_error:
  "check_specified named e ns w = (Some err, w') \<Longrightarrow> err \<noteq> MustBeSpecified d"
proof (induction named arbitrary: w)
  case Nil
  then show ?case by simp
next
  case (Cons kv named)
  obtain k vs where kv: "kv = (k, vs)" by (cases kv)
  with Cons show ?case
    by (auto simp: Let_def split: option.splits if_splits)
qed

lemma handle_exception_no_report:
  "handle_exception p e w = (out, w') \<Longrightarrow> ErrorReported err \<notin> set (new_events w w')"
  by (auto simp: handle_exception_def emit_def new_events_def split: option.splits if_splits
      dest!: route_exception_frame)

lemma invoke_handler_no_report:
  "invoke_handler p i h pos eff w = (out, w') \<Longrightarrow> ErrorReported err \<notin> set (new_events w w')"
proof -
  assume a: "invoke_handler p i h pos eff w = (out, w')"
  let ?w1 = "emit (HandlerInvoked i pos eff) w"
  from a obtain e where "handle_exception p e ?w1 = (out, w') \<or> w' = ?w1"
    by (auto simp: invoke_handler_def Let_def split: handler_result.splits if_splits)
  then show ?thesis
  proof
    assume h: "handle_exception p e ?w1 = (out, w')"
    from handle_exception_frame[OF h] obtain evs where
      "events w' = events ?w1 @ evs" by blast
    moreover from handle_exception_no_report[OF h]
    have "ErrorReported err \<notin> set (new_events ?w1 w')" .
    ultimately show ?thesis by (auto simp: new_events_def emit_def)
  next
    assume "w' = ?w1"
    then show ?thesis by (simp add: new_events_def emit_def)
  qed
qed

lemma best_fit_unique:
  "best_fit regs args pos i \<Longrightarrow> best_fit regs args pos j \<Longrightarrow> i = j"
  by (fastforce simp: best_fit_def)


lemma handle_command_tty_no_must:
  assumes reg: "cmdline_handlers p ! i = (h, ep, en)"
    and hc: "handle_command p i pos named w = (out, w')"
    and tty: "stdin_isatty w" and fs: "from_stdin d" "max_occurrence d = 1"
  shows "ErrorReported (MustBeSpecified d) \<notin> set (new_events w w')"
  using reg hc
proof (cases rule: handle_command_cases)
  case (specified err w1)
  from check_specified_frame[OF specified(1)] check_specified_error[OF specified(1)] specified(3)
  show ?thesis by (auto simp: report_def emit_def new_events_def)
next
  case (required w1 eff w2 d')
  let ?ns = "next_ref w"
  let ?w0 = "snd (list_copy en w)"
  have c0: "count_list (heap w1 ?ns) d \<le> count_list (heap w1 en) d"
  proof (cases "en = ?ns")
    case True
    then show ?thesis by simp
  next
    case False
    with check_specified_frame[OF required(1)] have "heap w1 en = heap w en" by simp
    moreover have "heap ?w0 ?ns = heap w en" by simp
    ultimately show ?thesis using check_specified_count[OF required(1), of d] by simp
  qed
  have t1: "stdin_isatty w1" using check_specified_frame[OF required(1)] tty by simp
  from craft_effective_tty_removes[OF t1 fs c0, of named "[]"] required(2)
  have "d \<notin> set (heap w2 ?ns)" by simp
  moreover from required(3) have "d' \<in> set (heap w2 ?ns)"
    by (auto simp: find_Some_iff)
  ultimately have "d' \<noteq> d" by auto
  with check_specified_frame[OF required(1)] craft_effective_frame[OF required(2)] required(5)
  show ?thesis by (auto simp: report_def emit_def new_events_def)
next
  case (invoked w1 eff w2)
  from check_specified_frame[OF invoked(1)] craft_effective_frame[OF invoked(2)]
  have "events w2 = events w" by simp
  with invoke_handler_no_report[OF invoked(4), of "MustBeSpecified d"] show ?thesis
    by (simp add: new_events_def)
qed


text \<open>
  C2, as the code has it. Take the registration \<open>process\<close> selects, a named definition
  of it that reads from stdin and allows one occurrence (required or not), absent from
  the command line, and standard input a terminal. The terminal branch of the second
  loop removes the definition from the list of definitions not yet specified, so
  \<open>process\<close> never reports that this argument must be specified; and whenever the
  handler is invoked, it receives the empty list of values for the argument's name.
\<close>

theorem terminal_counts_as_satisfied:
  assumes pr: "process p args w = (out, p', w')"
    and sp: "split_arguments args [] [] = Inr (pos, named)"
    and bf: "best_fit (cmdline_handlers p) args pos i"
    and reg: "cmdline_handlers p ! i = (h, ep, en)"
    and d: "d \<in> set (heap w en)" "from_stdin d" "max_occurrence d = 1"
    and absent: "map_of named (name d) = None"
    and tty: "stdin_isatty w"
    and wf: "en < next_ref w"
  shows "ErrorReported (MustBeSpecified d) \<notin> set (new_events w w') \<and>
     (\<forall>j pos' eff. HandlerInvoked j pos' eff \<in> set (new_events w w') \<longrightarrow>
        map_of eff (name d) = Some [])"
  using pr
proof (cases rule: process_cases)
  case (malformed err)
  with sp show ?thesis by simp
next
  case (not_handled pos0 named0)
  then show ?thesis by (simp add: new_events_def)
next
  case (selected pos0 named0 k h0 ep0 en0)
  from selected(1) sp have eq: "pos0 = pos" "named0 = named" by simp_all
  with selected(2) bf have k: "k = i" by (auto dest: best_fit_unique)
  from selected(4) eq k have hc: "handle_command p i pos named w = (out, w')" by simp
  have a: "ErrorReported (MustBeSpecified d) \<notin> set (new_events w w')"
    using reg hc tty d(2,3) by (rule handle_command_tty_no_must)
  have b: "map_of eff (name d) = Some []"
    if ev: "HandlerInvoked j pos' eff \<in> set (new_events w w')" for j pos' eff
  proof -
    from handle_command_invoked[OF reg hc ev] obtain w1 w2 where
      cs: "check_specified named en (next_ref w) (snd (list_copy en w)) = (None, w1)" and
      cr: "craft_effective (heap w1 en) named (next_ref w) [] w1 = (eff, w2)" by blast
    from check_specified_frame[OF cs] wf have "heap w1 en = heap w en" "stdin_isatty w1 = stdin_isatty w"
      by simp_all
    with d(1) tty have "name d \<in> name ` set (heap w1 en)" "stdin_isatty w1" by simp_all
    from craft_effective_tty_absent[OF this(2) absent this(1), of "next_ref w" "[]"] cr
    show ?thesis by simp
  qed
  from a b show ?thesis by blast
qed


theorem terminal_counts_as_satisfied_witness:
  "split_arguments [''login''] [] [] = Inr ([''login''], []) \<and>
   best_fit (cmdline_handlers login_processor) [''login''] [''login''] 0 \<and>
   password_arg \<in> set (heap login_tty_world 0) \<and>
   from_stdin password_arg \<and> min_occurrence password_arg = 1 \<and>
   max_occurrence password_arg = 1 \<and> stdin_isatty login_tty_world \<and>
   HandlerInvoked 0 [''login''] [(''password'', [])] \<in>
     set (new_events login_tty_world
            (snd (snd (process login_processor [''login''] login_tty_world)))) \<and>
   ErrorReported (MustBeSpecified password_arg) \<notin>
     set (new_events login_tty_world
            (snd (snd (process login_processor [''login''] login_tty_world)))) \<and>
   map_of [(''password'', [])] (name password_arg) = Some ([] :: string list)"
proof -
  have e: "process login_processor [''login''] login_tty_world =
     (Returned (PyInt 0), login_processor,
      login_tty_world\<lparr>heap := (heap login_tty_world)(1 := []), next_ref := 2,
        events := [HandlerInvoked 0 [''login''] [(''password'', [])]]\<rparr>)"
    by (simp add: login_processor_def login_tty_world_def password_arg_def world_eval str_eval
        ok_handler_def)
  have sp: "split_arguments [''login''] [] [] = Inr ([''login''], [])"
    by (simp add: str_eval)
  have bf: "best_fit (cmdline_handlers login_processor) [''login''] [''login''] 0"
    by (simp add: best_fit_def fully_matching_def npos_def login_processor_def)
  have reg: "cmdline_handlers login_processor ! 0 = (ok_handler, [PositionalArgument ''login''], 0)"
    by (simp add: login_processor_def)
  have d: "password_arg \<in> set (heap login_tty_world 0)" "from_stdin password_arg"
    "max_occurrence password_arg = 1" "min_occurrence password_arg = 1"
    by (simp_all add: login_tty_world_def empty_world_def password_arg_def)
  have ab: "map_of [] (name password_arg) = None" by simp
  have tty: "stdin_isatty login_tty_world" by (simp add: login_tty_world_def empty_world_def)
  have wf: "0 < next_ref login_tty_world" by (simp add: login_tty_world_def empty_world_def)
  have ev: "HandlerInvoked 0 [''login''] [(''password'', [])] \<in>
     set (new_events login_tty_world
            (login_tty_world\<lparr>heap := (heap login_tty_world)(1 := []), next_ref := 2,
               events := [HandlerInvoked 0 [''login''] [(''password'', [])]]\<rparr>))"
    by (simp add: new_events_def login_tty_world_def empty_world_def)
  note t = terminal_counts_as_satisfied [OF e sp bf reg d(1,2,3) ab tty wf]
  from t have a: "ErrorReported (MustBeSpecified password_arg) \<notin>
     set (new_events login_tty_world
            (login_tty_world\<lparr>heap := (heap login_tty_world)(1 := []), next_ref := 2,
               events := [HandlerInvoked 0 [''login''] [(''password'', [])]]\<rparr>))"
    by (rule conjunct1)
  from t [THEN conjunct2, rule_format, OF ev]
  have b: "map_of [(''password'', [])] (name password_arg) = Some ([] :: string list)" .
  from a b
  have "ErrorReported (MustBeSpecified password_arg) \<notin>
     set (new_events login_tty_world
            (login_tty_world\<lparr>heap := (heap login_tty_world)(1 := []), next_ref := 2,
               events := [HandlerInvoked 0 [''login''] [(''password'', [])]]\<rparr>)) \<and>
     map_of [(''password'', [])] (name password_arg) = Some ([] :: string list)"
    by (rule conjI)
  with e sp bf d tty ev show ?thesis by simp
qed

text \<open>
  The claim C2 fails for the \<open>login\<close> registration with its required \<open>password\<close>
  argument: invoked as \<open>login\<close> on a terminal, \<open>process\<close> does not fail with exit code 2
  but calls the handler, with no value for \<open>password\<close>, and returns its exit code 0.
\<close>

theorem terminal_required_argument_not_enforced:
  "process login_processor [''login''] login_tty_world =
     (Returned (PyInt 0), login_processor,
      login_tty_world\<lparr>heap := (heap login_tty_world)(1 := []), next_ref := 2,
        events := [HandlerInvoked 0 [''login''] [(''password'', [])]]\<rparr>)"
  by (simp add: login_processor_def login_tty_world_def password_arg_def world_eval str_eval
      ok_handler_def)

lemma dict_append_nonempty:
  "\<forall>kv \<in> set d. snd kv \<noteq> [] \<Longrightarrow> \<forall>kv \<in> set (dict_append d k v). snd kv \<noteq> []"
  by (induction d k v rule: dict_append.induct) auto

lemma split_arguments_nonempty:
  "split_arguments args ps ns = Inr (pos, named) \<Longrightarrow> \<forall>kv \<in> set ns. snd kv \<noteq> [] \<Longrightarrow>
     \<forall>kv \<in> set named. snd kv \<noteq> []"
proof (induction args arbitrary: ps ns)
  case Nil
  then show ?case by simp
next
  case (Cons a args)
  show ?case
  proof (cases "startswith (strip a) ''--''")
    case True
    let ?k = "strip (lower (hd (split_str CHR ''='' (drop 2 (strip a)))))"
    let ?v = "join_str ''='' (tl (split_str CHR ''='' (drop 2 (strip a))))"
    from Cons.prems(1) True have
      "split_arguments args ps (dict_append ns ?k ?v) = Inr (pos, named)"
      by (auto simp: Let_def split: if_splits)
    from Cons.IH[OF this dict_append_nonempty[OF Cons.prems(2)]] show ?thesis .
  next
    case False
    with Cons.prems(1) have "split_arguments args (ps @ [strip a]) ns = Inr (pos, named)"
      by (simp add: Let_def)
    from Cons.IH[OF this Cons.prems(2)] show ?thesis .
  qed
qed

lemma read_from_stdin_buffer:
  "\<not> stdin_isatty w \<Longrightarrow> read_from_stdin d ns w = (v, w') \<Longrightarrow>
     stdin_buffer w' =
       (if from_stdin d \<and> max_occurrence d = 1 then snd (readline (stdin_buffer w))
        else stdin_buffer w)"
  by (auto simp: read_from_stdin_def readline_if_no_tty_def Let_def
      split: if_splits prod.splits option.splits)

lemma craft_effective_buffer:
  "\<not> stdin_isatty w \<Longrightarrow> craft_effective defs named ns eff w = (eff', w') \<Longrightarrow>
     stdin_buffer w' = stdin_after defs (stdin_buffer w)"
proof (induction defs arbitrary: eff w)
  case Nil
  then show ?case by simp
next
  case (Cons d defs)
  obtain v w1 where r: "read_from_stdin d ns w = (v, w1)" by (cases "read_from_stdin d ns w")
  from read_from_stdin_frame[OF r] Cons.prems(1) have nt: "\<not> stdin_isatty w1" by simp
  from Cons.prems(2) r have
    "craft_effective defs named ns (dict_set eff (name d) (effective_values named d v)) w1 = (eff', w')"
    by simp
  from Cons.IH[OF nt this] read_from_stdin_buffer[OF Cons.prems(1) r] show ?case by simp
qed

lemma read_from_stdin_line:
  "\<not> stdin_isatty w \<Longrightarrow> from_stdin d \<Longrightarrow> max_occurrence d = 1 \<Longrightarrow>
   readline (stdin_buffer w) = (line, rest) \<Longrightarrow> line \<noteq> [] \<Longrightarrow>
     fst (read_from_stdin d ns w) = Some (rstrip line)"
  by (simp add: read_from_stdin_def readline_if_no_tty_def)


lemma readline_empty_iff: "fst (readline buf) = [] \<longleftrightarrow> buf = []"
proof (cases "dropWhile (\<lambda>c. c \<noteq> CHR 0x0A) buf")
  case Nil
  then have tw: "takeWhile (\<lambda>c. c \<noteq> CHR 0x0A) buf = buf"
    by (metis takeWhile_dropWhile_id append_Nil2)
  show ?thesis unfolding readline_def Let_def Nil tw by simp
next
  case (Cons c r)
  then have ne: "buf \<noteq> []" by auto
  show ?thesis unfolding readline_def Let_def Cons using ne by simp
qed

lemma readline_Nil: "readline [] = ([], [])"
  by (simp add: readline_def)

lemma stdin_after_Nil: "stdin_after ds [] = []"
  by (induction ds) (simp_all add: readline_Nil)


lemma read_from_stdin_line_full:
  assumes "\<not> stdin_isatty w" "from_stdin d" "max_occurrence d = 1" "stdin_buffer w \<noteq> []"
  shows "read_from_stdin d ns w =
     (Some (rstrip (fst (readline (stdin_buffer w)))),
      remove_if_in ns d (w\<lparr>stdin_buffer := snd (readline (stdin_buffer w))\<rparr>))"
proof -
  obtain line rest where rl: "readline (stdin_buffer w) = (line, rest)"
    by (cases "readline (stdin_buffer w)")
  from assms(4) rl have ne: "line \<noteq> []" using readline_empty_iff[of "stdin_buffer w"] by simp
  have "readline_if_no_tty w = (Some (rstrip line), w\<lparr>stdin_buffer := rest\<rparr>)"
    using assms(1) ne by (simp add: readline_if_no_tty_def rl)
  then show ?thesis using assms(2,3) by (simp add: read_from_stdin_def rl)
qed

lemma read_from_stdin_count:
  "read_from_stdin a ns w = (v, w') \<Longrightarrow>
     count_list (heap w' ns) x \<le> count_list (heap w ns) x"
  by (auto simp: read_from_stdin_def readline_if_no_tty_def Let_def remove_if_in_count
      split: if_splits prod.splits option.splits)

lemma craft_effective_count:
  "craft_effective defs named ns eff w = (eff', w') \<Longrightarrow>
     count_list (heap w' ns) x \<le> count_list (heap w ns) x"
proof (induction defs arbitrary: eff w)
  case Nil
  then show ?case by simp
next
  case (Cons a defs)
  obtain v w1 where r: "read_from_stdin a ns w = (v, w1)" by (cases "read_from_stdin a ns w")
  with Cons.prems have
    "craft_effective defs named ns (dict_set eff (name a) (effective_values named a v)) w1 = (eff', w')"
    by simp
  from Cons.IH[OF this] read_from_stdin_count[OF r, of x] show ?case by simp
qed

lemma craft_effective_lines_remove:
  "\<not> stdin_isatty w \<Longrightarrow> from_stdin d \<Longrightarrow> max_occurrence d = 1 \<Longrightarrow>
   stdin_after defs (stdin_buffer w) \<noteq> [] \<Longrightarrow>
   craft_effective defs named ns eff w = (eff', w') \<Longrightarrow>
     count_list (heap w' ns) d \<le> count_list (heap w ns) d - count_list defs d"
proof (induction defs arbitrary: eff w)
  case Nil
  then show ?case by simp
next
  case (Cons a defs)
  obtain v w1 where r: "read_from_stdin a ns w = (v, w1)" by (cases "read_from_stdin a ns w")
  from read_from_stdin_frame[OF r] Cons.prems(1) have nt: "\<not> stdin_isatty w1" by simp
  from read_from_stdin_buffer[OF Cons.prems(1) r] Cons.prems(4)
  have sa: "stdin_after defs (stdin_buffer w1) \<noteq> []" by simp
  from Cons.prems(5) r have c:
    "craft_effective defs named ns (dict_set eff (name a) (effective_values named a v)) w1 = (eff', w')"
    by simp
  note ih = Cons.IH[OF nt Cons.prems(2,3) sa c]
  show ?case
  proof (cases "a = d")
    case True
    have ne: "stdin_buffer w \<noteq> []"
    proof
      assume "stdin_buffer w = []"
      with Cons.prems(4) show False by (simp add: stdin_after_Nil readline_Nil)
    qed
    from read_from_stdin_line_full[OF Cons.prems(1,2,3) ne, of ns] r True
    have "w1 = remove_if_in ns d (w\<lparr>stdin_buffer := snd (readline (stdin_buffer w))\<rparr>)" by simp
    then have "count_list (heap w1 ns) d = count_list (heap w ns) d - 1"
      by (auto simp: remove_if_in_count count_list_0_iff)
    with ih True show ?thesis by simp
  next
    case False
    from read_from_stdin_count[OF r, of d] ih False show ?thesis by simp
  qed
qed

lemma craft_effective_line_satisfies:
  assumes nt: "\<not> stdin_isatty w" and d: "from_stdin d" "max_occurrence d = 1"
    and ne: "stdin_after ds1 (stdin_buffer w) \<noteq> []"
    and notin: "d \<notin> set ds2"
    and cnt: "count_list (heap w ns) d \<le> count_list (ds1 @ d # ds2) d"
    and cr: "craft_effective (ds1 @ d # ds2) named ns eff w = (eff', w')"
  shows "d \<notin> set (heap w' ns)"
proof -
  obtain eff1 wa where c1: "craft_effective ds1 named ns eff w = (eff1, wa)"
    by (cases "craft_effective ds1 named ns eff w")
  obtain v wb where r: "read_from_stdin d ns wa = (v, wb)"
    by (cases "read_from_stdin d ns wa")
  from cr c1 r have c2:
    "craft_effective ds2 named ns (dict_set eff1 (name d) (effective_values named d v)) wb = (eff', w')"
    by (simp add: craft_effective_append)
  from craft_effective_frame[OF c1] nt have nta: "\<not> stdin_isatty wa" by simp
  from craft_effective_buffer[OF nt c1] ne have nea: "stdin_buffer wa \<noteq> []" by simp
  from craft_effective_lines_remove[OF nt d ne c1]
  have "count_list (heap wa ns) d \<le> count_list (heap w ns) d - count_list ds1 d" .
  with cnt notin have le1: "count_list (heap wa ns) d \<le> 1" by (simp add: count_list_0_iff)
  from read_from_stdin_line_full[OF nta d nea, of ns] r
  have "wb = remove_if_in ns d (wa\<lparr>stdin_buffer := snd (readline (stdin_buffer wa))\<rparr>)" by simp
  then have "count_list (heap wb ns) d = count_list (heap wa ns) d - 1"
    by (auto simp: remove_if_in_count count_list_0_iff)
  with le1 have "count_list (heap wb ns) d = 0" by simp
  with craft_effective_count[OF c2, of d] have "count_list (heap w' ns) d = 0" by simp
  then show ?thesis by (simp add: count_list_0_iff)
qed

lemma handle_command_line_no_must:
  assumes reg: "cmdline_handlers p ! i = (h, ep, en)"
    and hc: "handle_command p i pos named w = (out, w')"
    and nt: "\<not> stdin_isatty w" and fs: "from_stdin d" "max_occurrence d = 1"
    and wf: "en < next_ref w"
    and defs: "heap w en = ds1 @ d # ds2" and notin: "d \<notin> set ds2"
    and ne: "stdin_after ds1 (stdin_buffer w) \<noteq> []"
  shows "ErrorReported (MustBeSpecified d) \<notin> set (new_events w w')"
  using reg hc
proof (cases rule: handle_command_cases)
  case (specified err w1)
  from check_specified_frame[OF specified(1)] check_specified_error[OF specified(1)] specified(3)
  show ?thesis by (auto simp: report_def emit_def new_events_def)
next
  case (required w1 eff w2 d')
  let ?ns = "next_ref w"
  let ?w0 = "snd (list_copy en w)"
  from check_specified_frame[OF required(1)] wf have
    h1: "heap w1 en = ds1 @ d # ds2" and t1: "\<not> stdin_isatty w1" and
    b1: "stdin_buffer w1 = stdin_buffer w"
    using nt by (simp_all add: defs)
  have "heap ?w0 ?ns = heap w en" by simp
  with check_specified_count[OF required(1), of d] defs
  have c0: "count_list (heap w1 ?ns) d \<le> count_list (ds1 @ d # ds2) d" by simp
  from ne b1 have ne1: "stdin_after ds1 (stdin_buffer w1) \<noteq> []" by simp
  from required(2) h1 have cr: "craft_effective (ds1 @ d # ds2) named ?ns [] w1 = (eff, w2)"
    by simp
  from craft_effective_line_satisfies[OF t1 fs ne1 notin c0 cr]
  have "d \<notin> set (heap w2 ?ns)" .
  moreover from required(3) have "d' \<in> set (heap w2 ?ns)"
    by (auto simp: find_Some_iff)
  ultimately have "d' \<noteq> d" by auto
  with check_specified_frame[OF required(1)] craft_effective_frame[OF required(2)] required(5)
  show ?thesis by (auto simp: report_def emit_def new_events_def)
next
  case (invoked w1 eff w2)
  from check_specified_frame[OF invoked(1)] craft_effective_frame[OF invoked(2)]
  have "events w2 = events w" by simp
  with invoke_handler_no_report[OF invoked(4), of "MustBeSpecified d"] show ?thesis
    by (simp add: new_events_def)
qed

lemma handle_command_reports_or_invokes:
  assumes reg: "cmdline_handlers p ! i = (h, ep, en)"
    and hc: "handle_command p i pos named w = (out, w')"
  shows "(\<exists>err. ErrorReported err \<in> set (new_events w w')) \<or>
         (\<exists>eff. HandlerInvoked i pos eff \<in> set (new_events w w'))"
  using reg hc
proof (cases rule: handle_command_cases)
  case (specified err w1)
  from check_specified_frame[OF specified(1)] specified(3)
  show ?thesis by (auto simp: report_def emit_def new_events_def)
next
  case (required w1 eff w2 d')
  from check_specified_frame[OF required(1)] craft_effective_frame[OF required(2)] required(5)
  show ?thesis by (auto simp: report_def emit_def new_events_def)
next
  case (invoked w1 eff w2)
  from check_specified_frame[OF invoked(1)] craft_effective_frame[OF invoked(2)]
  have e2: "events w2 = events w" by simp
  from invoke_handler_frame[OF invoked(4)] obtain evs where
    "events w' = events w2 @ HandlerInvoked i pos eff # evs" by blast
  with e2 have "HandlerInvoked i pos eff \<in> set (new_events w w')"
    by (simp add: new_events_def)
  then show ?thesis by blast
qed

text \<open>
  C7, as the code has it. Take the registration \<open>process\<close> selects and a named definition
  of it that reads from stdin and allows one occurrence. First, suppose no later
  definition of the registration has the same name, the argument is absent from the
  command line, standard input is no terminal and the read for this definition (after
  the reads for the definitions before it) yields a non-empty line. Then the line counts
  as the argument: \<open>process\<close> does not report that it must be specified, and whenever
  the handler is invoked it receives for the argument's name the list of that one line,
  stripped at the right. Second, whatever the other definitions are, if values were
  supplied on the command line, the handler receives exactly those values. Third,
  \<open>process\<close> either reports an error or invokes the handler of the selected
  registration.
\<close>

theorem stdin_fallback:
  assumes pr: "process p args w = (out, p', w')"
    and sp: "split_arguments args [] [] = Inr (pos, named)"
    and bf: "best_fit (cmdline_handlers p) args pos i"
    and reg: "cmdline_handlers p ! i = (h, ep, en)" and wf: "en < next_ref w"
    and din: "d \<in> set (heap w en)"
    and d: "from_stdin d" "max_occurrence d = 1"
  shows "(\<forall>ds1 ds2 line rest.
            heap w en = ds1 @ d # ds2 \<and> name d \<notin> name ` set ds2 \<and>
            map_of named (name d) = None \<and> \<not> stdin_isatty w \<and>
            readline (stdin_after ds1 (stdin_buffer w)) = (line, rest) \<and> line \<noteq> [] \<longrightarrow>
              ErrorReported (MustBeSpecified d) \<notin> set (new_events w w') \<and>
              (\<forall>j pos' eff. HandlerInvoked j pos' eff \<in> set (new_events w w') \<longrightarrow>
                 map_of eff (name d) = Some [rstrip line])) \<and>
         (\<forall>vs j pos' eff.
            map_of named (name d) = Some vs \<and>
            HandlerInvoked j pos' eff \<in> set (new_events w w') \<longrightarrow>
              map_of eff (name d) = Some vs) \<and>
         ((\<exists>err. ErrorReported err \<in> set (new_events w w')) \<or>
          (\<exists>eff. HandlerInvoked i pos eff \<in> set (new_events w w')))"
proof -
  have hc: "handle_command p i pos named w = (out, w')"
    using pr
  proof (cases rule: process_cases)
    case (malformed err)
    with sp show ?thesis by simp
  next
    case (not_handled pos0 named0)
    with sp bf show ?thesis by (auto simp: best_fit_def)
  next
    case (selected pos0 named0 k h0 ep0 en0)
    from selected(1) sp have eq: "pos0 = pos" "named0 = named" by simp_all
    with selected(2) bf have "k = i" by (auto dest: best_fit_unique)
    with selected(4) eq show ?thesis by simp
  qed
  let ?ns = "next_ref w"
  have crafted: "\<exists>w1 w2. check_specified named en ?ns (snd (list_copy en w)) = (None, w1) \<and>
       craft_effective (heap w en) named ?ns [] w1 = (eff, w2) \<and>
       stdin_isatty w1 = stdin_isatty w \<and> stdin_buffer w1 = stdin_buffer w"
    if ev: "HandlerInvoked j pos' eff \<in> set (new_events w w')" for j pos' eff
  proof -
    from handle_command_invoked[OF reg hc ev] obtain w1 w2 where
      cs: "check_specified named en ?ns (snd (list_copy en w)) = (None, w1)" and
      cr: "craft_effective (heap w1 en) named ?ns [] w1 = (eff, w2)" by blast
    from check_specified_frame[OF cs] wf have
      "heap w1 en = heap w en" "stdin_isatty w1 = stdin_isatty w"
      "stdin_buffer w1 = stdin_buffer w" by simp_all
    with cs cr show ?thesis by auto
  qed
  have second: "map_of eff (name d) = Some vs"
    if m: "map_of named (name d) = Some vs"
      and ev: "HandlerInvoked j pos' eff \<in> set (new_events w w')" for vs j pos' eff
  proof -
    from crafted[OF ev] obtain w1 w2 where
      cr: "craft_effective (heap w en) named ?ns [] w1 = (eff, w2)" by blast
    from m have "(name d, vs) \<in> set named" by (rule map_of_SomeD)
    with split_arguments_nonempty[OF sp] have ne: "vs \<noteq> []" by fastforce
    from din have "name d \<in> name ` set (heap w en)" by simp
    from craft_effective_specified[OF m ne this, of ?ns "[]" w1] cr
    show ?thesis by simp
  qed
  have first: "ErrorReported (MustBeSpecified d) \<notin> set (new_events w w') \<and>
      (\<forall>j pos' eff. HandlerInvoked j pos' eff \<in> set (new_events w w') \<longrightarrow>
         map_of eff (name d) = Some [rstrip line])"
    if defs: "heap w en = ds1 @ d # ds2" and last: "name d \<notin> name ` set ds2"
      and m: "map_of named (name d) = None" and nt: "\<not> stdin_isatty w"
      and rl: "readline (stdin_after ds1 (stdin_buffer w)) = (line, rest)" and ne: "line \<noteq> []"
    for ds1 ds2 line rest
  proof -
    from last have notin: "d \<notin> set ds2" by auto
    from rl ne have sa: "stdin_after ds1 (stdin_buffer w) \<noteq> []"
      using readline_empty_iff[of "stdin_after ds1 (stdin_buffer w)"] by auto
    have a: "ErrorReported (MustBeSpecified d) \<notin> set (new_events w w')"
      using reg hc nt d wf defs notin sa by (rule handle_command_line_no_must)
    have b: "map_of eff (name d) = Some [rstrip line]"
      if ev: "HandlerInvoked j pos' eff \<in> set (new_events w w')" for j pos' eff
    proof -
      from crafted[OF ev] obtain w1 w2 where
        cr: "craft_effective (heap w en) named ?ns [] w1 = (eff, w2)" and
        t1: "stdin_isatty w1 = stdin_isatty w" and b1: "stdin_buffer w1 = stdin_buffer w"
        by blast
      obtain eff1 wa where c1: "craft_effective ds1 named ?ns [] w1 = (eff1, wa)"
        by (cases "craft_effective ds1 named ?ns [] w1")
      obtain v wb where r: "read_from_stdin d ?ns wa = (v, wb)"
        by (cases "read_from_stdin d ?ns wa")
      from nt t1 have nt1: "\<not> stdin_isatty w1" by simp
      from craft_effective_frame[OF c1] nt1 have nta: "\<not> stdin_isatty wa" by simp
      from craft_effective_buffer[OF nt1 c1] b1 have
        "stdin_buffer wa = stdin_after ds1 (stdin_buffer w)" by simp
      with rl have "readline (stdin_buffer wa) = (line, rest)" by simp
      from read_from_stdin_line[OF nta d this ne, of ?ns] r have v: "v = Some (rstrip line)"
        by simp
      have val: "effective_values named d v = [rstrip line]"
        using m v by (simp add: effective_values_def)
      from cr defs c1 r have
        "craft_effective ds2 named ?ns (dict_set eff1 (name d) (effective_values named d v)) wb
           = (eff, w2)"
        by (simp add: craft_effective_append)
      with craft_effective_other_names[OF last, of named ?ns
          "dict_set eff1 (name d) (effective_values named d v)" wb] val
      show ?thesis by (simp add: map_of_dict_set)
    qed
    from a b show ?thesis by blast
  qed
  from first second handle_command_reports_or_invokes[OF reg hc] show ?thesis by blast
qed


lemma login_pipe_absent:
  "process login_processor [''login''] login_pipe_world =
     (Returned (PyInt 0), login_processor,
      login_pipe_world\<lparr>heap := (heap login_pipe_world)(1 := []), next_ref := 2,
        stdin_buffer := [],
        events := [HandlerInvoked 0 [''login''] [(''password'', [''abc''])]]\<rparr>)"
  by (simp add: login_processor_def login_pipe_world_def password_arg_def world_eval str_eval
      ok_handler_def)

lemma login_pipe_supplied:
  "process login_processor [''login'', ''--password=xyz''] login_pipe_world =
     (Returned (PyInt 0), login_processor,
      login_pipe_world\<lparr>heap := (heap login_pipe_world)(1 := []), next_ref := 2,
        stdin_buffer := [],
        events := [HandlerInvoked 0 [''login''] [(''password'', [''xyz''])]]\<rparr>)"
  by (simp add: login_processor_def login_pipe_world_def password_arg_def world_eval str_eval
      ok_handler_def)

theorem stdin_fallback_witness:
  "split_arguments [''login''] [] [] = Inr ([''login''], []) \<and>
   split_arguments [''login'', ''--password=xyz''] [] [] =
     Inr ([''login''], [(''password'', [''xyz''])]) \<and>
   best_fit (cmdline_handlers login_processor) [''login''] [''login''] 0 \<and>
   best_fit (cmdline_handlers login_processor) [''login'', ''--password=xyz''] [''login''] 0 \<and>
   heap login_pipe_world 0 = [] @ password_arg # [] \<and>
   min_occurrence password_arg = 1 \<and>
   readline (stdin_after [] (stdin_buffer login_pipe_world)) = (''abc'' @ [CHR 0x0A], []) \<and>
   fst (process login_processor [''login''] login_pipe_world) = Returned (PyInt 0) \<and>
   HandlerInvoked 0 [''login''] [(''password'', [''abc''])] \<in>
     set (new_events login_pipe_world
            (snd (snd (process login_processor [''login''] login_pipe_world)))) \<and>
   ErrorReported (MustBeSpecified password_arg) \<notin>
     set (new_events login_pipe_world
            (snd (snd (process login_processor [''login''] login_pipe_world)))) \<and>
   map_of [(''password'', [''abc''])] (name password_arg) = Some [rstrip (''abc'' @ [CHR 0x0A])] \<and>
   HandlerInvoked 0 [''login''] [(''password'', [''xyz''])] \<in>
     set (new_events login_pipe_world
            (snd (snd (process login_processor [''login'', ''--password=xyz''] login_pipe_world)))) \<and>
   map_of [(''password'', [''xyz''])] (name password_arg) = Some [''xyz'']"
proof -
  let ?w1 = "login_pipe_world\<lparr>heap := (heap login_pipe_world)(1 := []), next_ref := 2,
        stdin_buffer := [],
        events := [HandlerInvoked 0 [''login''] [(''password'', [''abc''])]]\<rparr>"
  let ?w2 = "login_pipe_world\<lparr>heap := (heap login_pipe_world)(1 := []), next_ref := 2,
        stdin_buffer := [],
        events := [HandlerInvoked 0 [''login''] [(''password'', [''xyz''])]]\<rparr>"
  have sp1: "split_arguments [''login''] [] [] = Inr ([''login''], [])"
    by (simp add: str_eval)
  have sp2: "split_arguments [''login'', ''--password=xyz''] [] [] =
     Inr ([''login''], [(''password'', [''xyz''])])"
    by (simp add: str_eval)
  have bf1: "best_fit (cmdline_handlers login_processor) [''login''] [''login''] 0"
    by (simp add: best_fit_def fully_matching_def npos_def login_processor_def)
  have bf2: "best_fit (cmdline_handlers login_processor) [''login'', ''--password=xyz'']
      [''login''] 0"
    by (simp add: best_fit_def fully_matching_def npos_def login_processor_def)
  have reg: "cmdline_handlers login_processor ! 0 = (ok_handler, [PositionalArgument ''login''], 0)"
    by (simp add: login_processor_def)
  have wf: "0 < next_ref login_pipe_world" by (simp add: login_pipe_world_def empty_world_def)
  have defs: "heap login_pipe_world 0 = [] @ password_arg # []"
    by (simp add: login_pipe_world_def empty_world_def)
  have din: "password_arg \<in> set (heap login_pipe_world 0)"
    by (simp add: login_pipe_world_def empty_world_def)
  have d: "from_stdin password_arg" "max_occurrence password_arg = 1"
    by (simp_all add: password_arg_def)
  have mn: "min_occurrence password_arg = 1" by (simp add: password_arg_def)
  have last: "name password_arg \<notin> name ` set []" by simp
  have ev1: "HandlerInvoked 0 [''login''] [(''password'', [''abc''])] \<in>
      set (new_events login_pipe_world ?w1)"
    by (simp add: new_events_def login_pipe_world_def empty_world_def)
  have ev2: "HandlerInvoked 0 [''login''] [(''password'', [''xyz''])] \<in>
      set (new_events login_pipe_world ?w2)"
    by (simp add: new_events_def login_pipe_world_def empty_world_def)
  have rl: "readline (stdin_after [] (stdin_buffer login_pipe_world)) = (''abc'' @ [CHR 0x0A], [])"
    by (simp add: login_pipe_world_def empty_world_def readline_def)
  have nt: "\<not> stdin_isatty login_pipe_world"
    by (simp add: login_pipe_world_def empty_world_def)
  have ab: "map_of [] (name password_arg) = None" by simp
  have su: "map_of [(''password'', [''xyz''])] (name password_arg) = Some [''xyz'']"
    by (simp add: password_arg_def)
  note t1 = stdin_fallback [OF login_pipe_absent sp1 bf1 reg wf din d, THEN conjunct1,
      rule_format, of "[]" "[]" "''abc'' @ [CHR 0x0A]" "[]"]
  have pre: "heap login_pipe_world 0 = [] @ password_arg # [] \<and>
      name password_arg \<notin> name ` set [] \<and> map_of [] (name password_arg) = None \<and>
      \<not> stdin_isatty login_pipe_world \<and>
      readline (stdin_after [] (stdin_buffer login_pipe_world)) = (''abc'' @ [CHR 0x0A], []) \<and>
      ''abc'' @ [CHR 0x0A] \<noteq> []"
    using defs last ab nt rl by simp
  from t1 [OF pre] have a1: "ErrorReported (MustBeSpecified password_arg) \<notin>
      set (new_events login_pipe_world ?w1)"
    by (rule conjunct1)
  from t1 [OF pre, THEN conjunct2, rule_format, OF ev1]
  have a2: "map_of [(''password'', [''abc''])] (name password_arg) =
      Some [rstrip (''abc'' @ [CHR 0x0A])]" .
  from stdin_fallback [OF login_pipe_supplied sp2 bf2 reg wf din d, THEN conjunct2,
      THEN conjunct1, rule_format, OF conjI, OF su ev2]
  have b: "map_of [(''password'', [''xyz''])] (name password_arg) = Some [''xyz'']" .
  from sp1 sp2 bf1 bf2 defs mn rl ev1 ev2 a1 a2 b login_pipe_absent login_pipe_supplied
  show ?thesis by simp
qed

text \<open>
  The claim C7 fails for a registration with two definitions named \<open>password\<close>, the
  first reading from stdin: invoked as \<open>login\<close> with the line \<open>abc\<close> piped in, the first
  definition is absent from the command line and its read yields \<open>abc\<close>, but the round
  for the second definition stores the empty list under the same name, and that is what
  the handler receives.
\<close>

theorem stdin_line_overwritten:
  "process login_processor [''login''] twice_pipe_world =
     (Returned (PyInt 0), login_processor,
      twice_pipe_world\<lparr>heap := (heap twice_pipe_world)(1 := [password_flag]), next_ref := 2,
        stdin_buffer := [],
        events := [HandlerInvoked 0 [''login''] [(''password'', [])]]\<rparr>)"
  by (simp add: login_processor_def twice_pipe_world_def password_arg_def password_flag_def
      world_eval str_eval ok_handler_def)

subsection \<open>process: the case of a named definition's name\<close>

text \<open>
  C5. The claim is that a supplied key matches a definition named \<open>Name\<close> or \<open>name\<close>
  alike. The code compares the key, in lower case, with the definition's name as it was
  given: for the registration \<^verbatim>\<open>add_handler(ok_handler, NamedArgument("Name"))\<close> and
  the invocation \<open>--NAME=x\<close>, the names are equal in lower case, yet \<open>process\<close> reports
  that the argument is not allowed and returns exit code 2 without invoking the handler.
\<close>

theorem capitalised_definition_never_matches:
  "lower ''NAME'' = lower (name caps_arg) \<and>
   process caps_processor [''--NAME=x''] caps_world =
     (Returned (PyInt 2), caps_processor,
      caps_world\<lparr>heap := (heap caps_world)(1 := [caps_arg]), next_ref := 2,
        events := [ErrorReported (NotAllowed ''name'')]\<rparr>)"
  by (simp add: caps_processor_def caps_world_def caps_arg_def world_eval str_eval)

end
